theory Spec2Isabelle
  imports Main "HOL-Library.Sublist" "HOL-Library.Multiset"
begin

section \<open>Python values\<close>

text \<open>
  Values that travel through the protocol are JSON values as \<^verbatim>\<open>json.loads\<close> produces
  them. A dictionary is an association list in insertion order; a key is looked up at its
  first binding. Floating-point numbers are left out of the model.
\<close>

datatype json =
    JNull
  | JBool bool
  | JInt int
  | JStr string
  | JArr "json list"
  | JObj "(string \<times> json) list"

text \<open>Python truthiness, as used by \<^verbatim>\<open>if not name\<close> and \<^verbatim>\<open>if item\<close>.\<close>

fun truthy :: "json \<Rightarrow> bool" where
  "truthy JNull = False"
| "truthy (JBool b) = b"
| "truthy (JInt n) = (n \<noteq> 0)"
| "truthy (JStr s) = (s \<noteq> [])"
| "truthy (JArr xs) = (xs \<noteq> [])"
| "truthy (JObj kvs) = (kvs \<noteq> [])"

text \<open>\<^verbatim>\<open>d.get(k)\<close> and \<^verbatim>\<open>d.get(k, default)\<close>.\<close>

definition dict_get_default :: "(string \<times> json) list \<Rightarrow> string \<Rightarrow> json \<Rightarrow> json" where
  "dict_get_default d k dflt = (case map_of d k of None \<Rightarrow> dflt | Some v \<Rightarrow> v)"

definition dict_get :: "(string \<times> json) list \<Rightarrow> string \<Rightarrow> json" where
  "dict_get d k = dict_get_default d k JNull"

text \<open>
  Exceptions deriving from \<^verbatim>\<open>Exception\<close>, each with the text \<^verbatim>\<open>str(e)\<close> gives.
\<close>

datatype pyexc =
    ValueError string
  | TypeError string
  | AttributeError string
  | KeyError string
  | RecursionError string
  | UnicodeDecodeError string
  | OSError string

fun str_exc :: "pyexc \<Rightarrow> string" where
  "str_exc (ValueError m) = m"
| "str_exc (TypeError m) = m"
| "str_exc (AttributeError m) = m"
| "str_exc (KeyError m) = m"
| "str_exc (RecursionError m) = m"
| "str_exc (UnicodeDecodeError m) = m"
| "str_exc (OSError m) = m"

text \<open>
  The exceptions the interpreter itself raises carry its own wording, which is written
  here as CPython prints it, without the qualifying class name of a method.
\<close>

fun type_name :: "json \<Rightarrow> string" where
  "type_name JNull = ''NoneType''"
| "type_name (JBool b) = ''bool''"
| "type_name (JInt n) = ''int''"
| "type_name (JStr s) = ''str''"
| "type_name (JArr xs) = ''list''"
| "type_name (JObj kvs) = ''dict''"

definition quoted :: "string \<Rightarrow> string" where
  "quoted s = [CHR 0x27] @ s @ [CHR 0x27]"

definition unhashable :: "json \<Rightarrow> pyexc" where
  "unhashable v = TypeError (''unhashable type: '' @ quoted (type_name v))"

definition no_attribute_get :: "json \<Rightarrow> pyexc" where
  "no_attribute_get v =
     AttributeError (quoted (type_name v) @ '' object has no attribute '' @ quoted ''get'')"

definition not_a_mapping :: "json \<Rightarrow> pyexc" where
  "not_a_mapping v =
     TypeError (''execute() argument after ** must be a mapping, not '' @ type_name v)"

definition missing_argument :: "string \<Rightarrow> pyexc" where
  "missing_argument arg =
     TypeError (''execute() missing 1 required positional argument: '' @ quoted arg)"

definition unexpected_argument :: "string \<Rightarrow> pyexc" where
  "unexpected_argument arg =
     TypeError (''execute() got an unexpected keyword argument '' @ quoted arg)"

text \<open>
  \<^verbatim>\<open>v[key]\<close> with a string key: a dictionary gives the value or raises
  \<^verbatim>\<open>KeyError\<close>, every other value raises \<^verbatim>\<open>TypeError\<close>.
\<close>

definition py_subscript :: "json \<Rightarrow> string \<Rightarrow> pyexc + json" where
  "py_subscript v key =
     (case v of
        JObj kvs \<Rightarrow> (case map_of kvs key of None \<Rightarrow> Inl (KeyError (quoted key)) | Some x \<Rightarrow> Inr x)
      | JArr xs \<Rightarrow> Inl (TypeError ''list indices must be integers or slices, not str'')
      | JStr s \<Rightarrow> Inl (TypeError ''string indices must be integers'')
      | _ \<Rightarrow> Inl (TypeError (quoted (type_name v) @ '' object is not subscriptable'')))"

section \<open>Strings\<close>

text \<open>
  A character of a string stands for one code point. What Python's Unicode tables say of
  a code point is not fixed here: \<^verbatim>\<open>str.isspace\<close>, \<^verbatim>\<open>str.isalnum\<close> and
  \<^verbatim>\<open>str.lower\<close> are arguments of every function that uses them, \<open>lower\<close> as a function
  on whole strings since it may change their length, and the theorems hold for every
  choice of the three.
\<close>

record unicode =
  isspace :: "char \<Rightarrow> bool"
  isalnum :: "char \<Rightarrow> bool"
  lower :: "string \<Rightarrow> string"

text \<open>\<^verbatim>\<open>s.strip()\<close>: the whitespace at both ends is removed.\<close>

definition str_strip :: "unicode \<Rightarrow> string \<Rightarrow> string" where
  "str_strip U s = rev (dropWhile (isspace U) (rev (dropWhile (isspace U) s)))"

text \<open>
  \<^verbatim>\<open>s.split()\<close> without arguments, as a scan from the left: the second argument is
  the run of characters read since the last whitespace.
\<close>

fun split_from :: "unicode \<Rightarrow> string \<Rightarrow> string \<Rightarrow> string list" where
  "split_from U cur [] = (if cur = [] then [] else [cur])"
| "split_from U cur (c # cs) =
     (if isspace U c then (if cur = [] then split_from U [] cs else cur # split_from U [] cs)
      else split_from U (cur @ [c]) cs)"

definition str_split :: "unicode \<Rightarrow> string \<Rightarrow> string list" where
  "str_split U s = split_from U [] s"

text \<open>
  What a whitespace-delimited token is, said without the scan: a non-empty run of \<open>s\<close>
  without whitespace that has whitespace or an end of \<open>s\<close> on either side.
\<close>

definition is_token :: "unicode \<Rightarrow> string \<Rightarrow> string \<Rightarrow> bool" where
  "is_token U w s =
     (w \<noteq> [] \<and> (\<forall>c \<in> set w. \<not> isspace U c) \<and>
      (\<exists>pre post. s = pre @ w @ post \<and>
         (pre = [] \<or> isspace U (last pre)) \<and> (post = [] \<or> isspace U (hd post))))"

text \<open>\<^verbatim>\<open>sub in s\<close> on strings: \<open>sub\<close> occurs in \<open>s\<close> as a contiguous run.\<close>

fun str_in :: "string \<Rightarrow> string \<Rightarrow> bool" where
  "str_in sub [] = (sub = [])"
| "str_in sub (c # cs) = (prefix sub (c # cs) \<or> str_in sub cs)"

text \<open>
  Python's tables on the code points below 256, for the examples: the whitespace
  characters are 9 to 13, 28 to 32, 133 and 160; the letters and digits are those of
  ASCII and of Latin-1; \<^verbatim>\<open>lower\<close> maps A to Z, and the capital letters 192 to 222
  other than 215, to the character 32 places further.
\<close>

definition latin1_isspace :: "char \<Rightarrow> bool" where
  "latin1_isspace c = (let n = (of_char c :: nat) in
     (9 \<le> n \<and> n \<le> 13) \<or> (28 \<le> n \<and> n \<le> 32) \<or> n = 133 \<or> n = 160)"

definition latin1_isalnum :: "char \<Rightarrow> bool" where
  "latin1_isalnum c = (let n = (of_char c :: nat) in
     (48 \<le> n \<and> n \<le> 57) \<or> (65 \<le> n \<and> n \<le> 90) \<or> (97 \<le> n \<and> n \<le> 122) \<or>
     n = 170 \<or> n = 178 \<or> n = 179 \<or> n = 181 \<or> n = 185 \<or> n = 186 \<or>
     (188 \<le> n \<and> n \<le> 190) \<or> (192 \<le> n \<and> n \<le> 214) \<or> (216 \<le> n \<and> n \<le> 246) \<or>
     248 \<le> n)"

definition latin1_lower_char :: "char \<Rightarrow> char" where
  "latin1_lower_char c = (let n = (of_char c :: nat) in
     if (65 \<le> n \<and> n \<le> 90) \<or> (192 \<le> n \<and> n \<le> 214) \<or> (216 \<le> n \<and> n \<le> 222)
     then char_of (n + 32) else c)"

definition latin1 :: unicode where
  "latin1 = \<lparr>isspace = latin1_isspace, isalnum = latin1_isalnum,
             lower = map latin1_lower_char\<rparr>"

section \<open>Python sets\<close>

text \<open>
  A Python \<^verbatim>\<open>set\<close> is a duplicate-free list in insertion order. \<^verbatim>\<open>list(s)\<close> enumerates
  it in an order the language does not fix: the functions that call it take the
  enumeration \<open>enum\<close> as an argument, and the theorems hold for every enumeration that
  rearranges its argument.
\<close>

definition set_add :: "'a \<Rightarrow> 'a list \<Rightarrow> 'a list" where
  "set_add x s = (if x \<in> set s then s else s @ [x])"

definition is_enumeration :: "('a list \<Rightarrow> 'a list) \<Rightarrow> bool" where
  "is_enumeration enum = (\<forall>xs. mset (enum xs) = mset xs)"

section \<open>The data directory\<close>

text \<open>The dictionary \<^verbatim>\<open>item\<close> that \<^verbatim>\<open>MemoryWriteTool.execute\<close> builds and persists.\<close>

record item =
  item_id :: string
  created_at :: string
  updated_at :: string
  content :: string
  item_keywords :: "string list"

text \<open>
  The files the tools reach. \<open>items\<close> is the directory \<^verbatim>\<open>memory/shared/items\<close>: the
  file \<^verbatim>\<open><id>.json\<close> in it is the entry at \<open>id\<close>. \<open>index_file\<close> is
  \<^verbatim>\<open>memory/shared/index/keyword.json\<close>, \<open>None\<close> while the file does not exist. The two
  directories are taken to exist and to hold nothing else. \<open>elsewhere\<close> is the rest of the file system: for a name
  that leads out of the two directories, what \<^verbatim>\<open>os.path.exists\<close> and \<^verbatim>\<open>json.load\<close>
  find at the path that the name gives, \<open>None\<close> when no file is there and \<open>Inl\<close> when
  reading it raises.
\<close>

record store =
  items :: "string \<rightharpoonup> item"
  index_file :: "(string \<times> string list) list option"
  elsewhere :: "string \<Rightarrow> (pyexc + json) option"

definition empty_store :: store where
  "empty_store = \<lparr>items = Map.empty, index_file = None, elsewhere = (\<lambda>name. None)\<rparr>"

text \<open>The JSON object an item file holds, and the one the index file holds.\<close>

definition item_json :: "item \<Rightarrow> json" where
  "item_json it =
     JObj [(''id'', JStr (item_id it)),
           (''created_at'', JStr (created_at it)),
           (''updated_at'', JStr (updated_at it)),
           (''content'', JStr (content it)),
           (''keywords'', JArr (map JStr (item_keywords it)))]"

definition index_json :: "(string \<times> string list) list \<Rightarrow> json" where
  "index_json ix = JObj (map (\<lambda>kv. (fst kv, JArr (map JStr (snd kv)))) ix)"

text \<open>
  \<^verbatim>\<open>os.path.join(self.items_dir, f"{name}.json")\<close> and the file it denotes on a POSIX
  file system. The name is cut at the slashes; the components are followed from the
  items directory, an empty component and \<open>.\<close> staying in place and \<open>..\<close> going to the
  parent. A name that begins with a slash replaces the directory altogether.
\<close>

fun path_split :: "string \<Rightarrow> string \<Rightarrow> string list" where
  "path_split cur [] = [cur]"
| "path_split cur (c # cs) =
     (if c = CHR ''/'' then cur # path_split [] cs else path_split (cur @ [c]) cs)"

datatype place = ItemsDir | IndexDir | SharedDir | Elsewhere

fun parent :: "place \<Rightarrow> place" where
  "parent ItemsDir = SharedDir"
| "parent IndexDir = SharedDir"
| "parent SharedDir = Elsewhere"
| "parent Elsewhere = Elsewhere"

fun child :: "place \<Rightarrow> string \<Rightarrow> place option" where
  "child SharedDir n =
     (if n = ''items'' then Some ItemsDir else if n = ''index'' then Some IndexDir
      else Some Elsewhere)"
| "child Elsewhere n = Some Elsewhere"
| "child ItemsDir n = None"
| "child IndexDir n = None"

datatype target = FileIn place string | NoSuchFile

fun walk :: "place \<Rightarrow> string list \<Rightarrow> target" where
  "walk d [] = NoSuchFile"
| "walk d [n] = FileIn d n"
| "walk d (n # m # ns) =
     (if n = [] \<or> n = ''.'' then walk d (m # ns)
      else if n = ''..'' then walk (parent d) (m # ns)
      else (case child d n of None \<Rightarrow> NoSuchFile | Some d' \<Rightarrow> walk d' (m # ns)))"

text \<open>
  What \<^verbatim>\<open>os.path.exists\<close> and \<^verbatim>\<open>json.load\<close> give for the item path of a name:
  \<open>None\<close> when no file is there.
\<close>

definition read_item_path :: "store \<Rightarrow> string \<Rightarrow> (pyexc + json) option" where
  "read_item_path fs nm =
     (if nm \<noteq> [] \<and> hd nm = CHR ''/'' then elsewhere fs nm
      else
        (case walk ItemsDir (path_split [] (nm @ ''.json'')) of
           NoSuchFile \<Rightarrow> None
         | FileIn ItemsDir f \<Rightarrow>
             map_option (\<lambda>it. Inr (item_json it)) (items fs (take (length f - 5) f))
         | FileIn IndexDir f \<Rightarrow>
             (if f = ''keyword.json'' then map_option (\<lambda>ix. Inr (index_json ix)) (index_file fs)
              else None)
         | FileIn d f \<Rightarrow> elsewhere fs nm))"

section \<open>The memory tools\<close>

text \<open>\<^verbatim>\<open>d[k] = v\<close> on an insertion-ordered dictionary.\<close>

fun dict_set :: "('k \<times> 'v) list \<Rightarrow> 'k \<Rightarrow> 'v \<Rightarrow> ('k \<times> 'v) list" where
  "dict_set [] k v = [(k, v)]"
| "dict_set ((k', v') # d) k v =
     (if k' = k then (k, v) # d else (k', v') # dict_set d k v)"

text \<open>\<^verbatim>\<open>MemoryWriteTool._extract_keywords\<close>.\<close>

definition extract_keywords ::
  "unicode \<Rightarrow> (string list \<Rightarrow> string list) \<Rightarrow> item \<Rightarrow> string list" where
  "extract_keywords U enum it =
     (let kws = fold (\<lambda>kw acc. set_add (lower U kw) acc) (item_keywords it) [];
          words = str_split U (lower U (content it));
          kws = fold (\<lambda>word acc.
                   let cleaned = filter (isalnum U) word
                   in if 3 \<le> length cleaned then set_add cleaned acc else acc) words kws
      in enum kws)"

text \<open>
  The keyword set in the words of the specification: the tags, case-folded, together with
  the whitespace-delimited tokens of the content, case-folded and stripped of their
  non-alphanumeric characters, kept when at least three characters remain. The words
  leave open whether the content is folded before it is cut into tokens, as the code
  does, or each token after; \<open>spec_keywords\<close> folds first and \<open>spec_keywords_tokenwise\<close>
  each token. The two agree when folding a string folds each of its tokens.
\<close>

definition spec_keywords :: "unicode \<Rightarrow> string list \<Rightarrow> string \<Rightarrow> string set" where
  "spec_keywords U tags txt =
     lower U ` set tags \<union>
     {w. \<exists>tok. is_token U tok (lower U txt) \<and> w = filter (isalnum U) tok \<and> 3 \<le> length w}"

definition spec_keywords_tokenwise :: "unicode \<Rightarrow> string list \<Rightarrow> string \<Rightarrow> string set" where
  "spec_keywords_tokenwise U tags txt =
     lower U ` set tags \<union>
     {w. \<exists>tok. is_token U tok txt \<and> w = filter (isalnum U) (lower U tok) \<and> 3 \<le> length w}"

definition lower_tokenwise :: "unicode \<Rightarrow> bool" where
  "lower_tokenwise U =
     (\<forall>s. {tok. is_token U tok (lower U s)} = lower U ` {tok. is_token U tok s})"

text \<open>
  \<^verbatim>\<open>MemoryWriteTool._update_keyword_index\<close>. The index is loaded (empty when the file
  is absent), every extracted keyword gets the identifier appended unless it is there
  already, and the whole index replaces the file.
\<close>

definition index_lookup :: "(string \<times> string list) list \<Rightarrow> string \<Rightarrow> string list" where
  "index_lookup index keyword = (case map_of index keyword of None \<Rightarrow> [] | Some ids \<Rightarrow> ids)"

definition index_add :: "string \<Rightarrow> string \<Rightarrow> (string \<times> string list) list \<Rightarrow> (string \<times> string list) list" where
  "index_add mid keyword index =
     (let index = (if map_of index keyword = None then dict_set index keyword [] else index);
          ids = index_lookup index keyword
      in if mid \<in> set ids then index else dict_set index keyword (ids @ [mid]))"

definition update_keyword_index ::
  "unicode \<Rightarrow> (string list \<Rightarrow> string list) \<Rightarrow> store \<Rightarrow> item \<Rightarrow> store" where
  "update_keyword_index U enum fs it =
     (let index = (case index_file fs of None \<Rightarrow> [] | Some ix \<Rightarrow> ix);
          kws = extract_keywords U enum it;
          index = fold (index_add (item_id it)) kws index
      in fs\<lparr>index_file := Some index\<rparr>)"

text \<open>
  \<^verbatim>\<open>generate_memory_id\<close>: \<open>draw i\<close> is the number the entropy source returns for the
  \<open>i\<close>-th of the twelve choices; \<^verbatim>\<open>secrets.choice\<close> indexes \<open>chars\<close> with it.
\<close>

definition chars :: string where
  "chars = ''abcdefghijklmnopqrstuvwxyzABCDEFGHIJKLMNOPQRSTUVWXYZ0123456789''"

definition generate_memory_id :: "(nat \<Rightarrow> nat) \<Rightarrow> string" where
  "generate_memory_id draw =
     ''mem_'' @ map (\<lambda>i. chars ! (draw i mod length chars)) [0..<12]"

text \<open>
  \<^verbatim>\<open>MemoryWriteTool.execute\<close>. \<open>utcnow\<close> is the text of
  \<^verbatim>\<open>datetime.utcnow().isoformat()\<close>; \<open>tags\<close> is \<open>None\<close> when the caller gives none.
  The store is returned with the result. The identifier has no slash, so the item path
  is the file of that name in the items directory.
\<close>

definition MemoryWriteTool_execute ::
  "unicode \<Rightarrow> (string list \<Rightarrow> string list) \<Rightarrow> (nat \<Rightarrow> nat) \<Rightarrow> string \<Rightarrow> store \<Rightarrow> string \<Rightarrow>
   string list option \<Rightarrow> (pyexc + json) \<times> store" where
  "MemoryWriteTool_execute U enum draw utcnow fs content_arg tags =
     (if content_arg = [] then (Inl (ValueError ''content is required''), fs)
      else
        let memory_id = generate_memory_id draw;
            now = utcnow @ ''Z'';
            it = \<lparr>item_id = memory_id, created_at = now, updated_at = now,
                  content = content_arg,
                  item_keywords = (case tags of None \<Rightarrow> [] | Some ts \<Rightarrow> ts)\<rparr>;
            fs = fs\<lparr>items := (items fs)(memory_id \<mapsto> it)\<rparr>;
            fs = update_keyword_index U enum fs it
        in (Inr (JObj [(''memory_id'', JStr memory_id), (''success'', JBool True)]), fs))"

text \<open>\<^verbatim>\<open>MemorySearchTool._load_item\<close>.\<close>

definition load_item :: "store \<Rightarrow> string \<Rightarrow> (pyexc + json) option" where
  "load_item fs mid = read_item_path fs mid"

text \<open>The slice \<^verbatim>\<open>xs[:k]\<close>; a negative \<open>k\<close> counts from the end.\<close>

definition py_slice_to :: "'a list \<Rightarrow> int \<Rightarrow> 'a list" where
  "py_slice_to xs k =
     (if 0 \<le> k then take (nat k) xs else take (length xs - nat (- k)) xs)"

text \<open>The loop over \<^verbatim>\<open>index.items()\<close> that fills the set \<^verbatim>\<open>matching_ids\<close>.\<close>

definition matching_ids :: "(string \<times> string list) list \<Rightarrow> string \<Rightarrow> string list" where
  "matching_ids index query_lower =
     fold (\<lambda>(keyword, ids) acc.
             if str_in query_lower keyword then fold set_add ids acc else acc) index []"

text \<open>
  The dictionary appended for a loaded item: \<^verbatim>\<open>item["id"]\<close>, \<^verbatim>\<open>item["content"]\<close>
  and \<^verbatim>\<open>item.get("keywords", [])\<close>, evaluated in this order.
\<close>

definition search_hit :: "json \<Rightarrow> pyexc + json" where
  "search_hit loaded =
     (case py_subscript loaded ''id'' of
        Inl e \<Rightarrow> Inl e
      | Inr i \<Rightarrow>
          (case py_subscript loaded ''content'' of
             Inl e \<Rightarrow> Inl e
           | Inr c \<Rightarrow>
               (case loaded of
                  JObj kvs \<Rightarrow>
                    Inr (JObj [(''id'', i), (''content'', c),
                               (''keywords'', dict_get_default kvs ''keywords'' (JArr []))])
                | _ \<Rightarrow> Inl (no_attribute_get loaded))))"

text \<open>
  The loop that loads the matching items: an identifier without a file, or with a file
  whose content Python takes as false, is skipped, and an exception ends the search.
\<close>

fun load_results :: "store \<Rightarrow> string list \<Rightarrow> pyexc + json list" where
  "load_results fs [] = Inr []"
| "load_results fs (mid # mids) =
     (case load_item fs mid of
        None \<Rightarrow> load_results fs mids
      | Some (Inl e) \<Rightarrow> Inl e
      | Some (Inr loaded) \<Rightarrow>
          if \<not> truthy loaded then load_results fs mids
          else (case search_hit loaded of
                  Inl e \<Rightarrow> Inl e
                | Inr hit \<Rightarrow>
                    (case load_results fs mids of
                       Inl e \<Rightarrow> Inl e
                     | Inr hits \<Rightarrow> Inr (hit # hits))))"

definition search_result :: "json list \<Rightarrow> json" where
  "search_result results =
     JObj [(''results'', JArr results), (''count'', JInt (int (length results)))]"

text \<open>
  \<^verbatim>\<open>MemorySearchTool.execute\<close>; \<open>top_k\<close> is \<open>None\<close> when the caller gives none, and
  the default 5 applies.
\<close>

definition MemorySearchTool_execute ::
  "unicode \<Rightarrow> (string list \<Rightarrow> string list) \<Rightarrow> store \<Rightarrow> string \<Rightarrow> int option \<Rightarrow> pyexc + json" where
  "MemorySearchTool_execute U enum fs query top_k =
     (if query = [] \<or> str_strip U query = [] then Inr (search_result [])
      else
        let k = (case top_k of None \<Rightarrow> 5 | Some n \<Rightarrow> n);
            query_lower = lower U query;
            index = (case index_file fs of None \<Rightarrow> [] | Some ix \<Rightarrow> ix);
            ids = matching_ids index query_lower
        in (case load_results fs (py_slice_to (enum ids) k) of
              Inl e \<Rightarrow> Inl e
            | Inr results \<Rightarrow> Inr (search_result results)))"

text \<open>
  The records that a query matches, in the words of the specification: the identifiers
  listed under a keyword in which the case-folded query occurs.
\<close>

definition spec_matching :: "(string \<times> string list) list \<Rightarrow> string \<Rightarrow> string set" where
  "spec_matching index q =
     {mid. \<exists>(keyword, ids) \<in> set index. (\<exists>p s. keyword = p @ q @ s) \<and> mid \<in> set ids}"

text \<open>
  \<^verbatim>\<open>MemoryGetTool.execute\<close>. \<open>memory_id\<close> is \<open>None\<close> for a call without the argument,
  which Python rejects with a \<^verbatim>\<open>TypeError\<close> before the body runs.
\<close>

definition MemoryGetTool_execute :: "store \<Rightarrow> string option \<Rightarrow> pyexc + json" where
  "MemoryGetTool_execute fs memory_id =
     (case memory_id of
        None \<Rightarrow> Inl (missing_argument ''memory_id'')
      | Some mid \<Rightarrow>
          if mid = [] then Inl (ValueError ''memory_id is required'')
          else (case read_item_path fs mid of
                  None \<Rightarrow> Inr (JObj [(''memory'', JNull)])
                | Some (Inl e) \<Rightarrow> Inl e
                | Some (Inr loaded) \<Rightarrow> Inr (JObj [(''memory'', loaded)])))"

text \<open>
  The invariant of the keyword index: every identifier listed under a keyword has its
  record in the store, and no keyword lists an identifier twice.
\<close>

definition index_of :: "store \<Rightarrow> (string \<times> string list) list" where
  "index_of fs = (case index_file fs of None \<Rightarrow> [] | Some ix \<Rightarrow> ix)"

definition index_inv :: "store \<Rightarrow> bool" where
  "index_inv fs =
     (\<forall>(keyword, ids) \<in> set (index_of fs).
        distinct ids \<and> (\<forall>mid \<in> set ids. items fs mid \<noteq> None))"

definition index_good :: "string set \<Rightarrow> (string \<times> string list) list \<Rightarrow> bool" where
  "index_good S ix = (\<forall>(keyword, ids) \<in> set ix. distinct ids \<and> set ids \<subseteq> S)"

text \<open>
  An index as \<^verbatim>\<open>memory.write\<close> leaves it: no identifier in it has a slash.
\<close>

definition plain_index :: "store \<Rightarrow> bool" where
  "plain_index fs =
     (\<forall>(keyword, ids) \<in> set (index_of fs). \<forall>mid \<in> set ids. CHR ''/'' \<notin> set mid)"

section \<open>The protocol dispatcher\<close>

text \<open>
  The library functions the dispatcher calls: \<^verbatim>\<open>json.dumps\<close>, \<^verbatim>\<open>json.loads\<close> and
  the text that string formatting gives a value that is not a string. \<^verbatim>\<open>json.loads\<close>
  returns a value, raises \<^verbatim>\<open>JSONDecodeError\<close> with a text, or raises another
  exception, as it does on input nested too deeply.
\<close>

datatype load_result = Loaded json | JSONDecodeError string | LoadRaised pyexc

record pylib =
  dumps :: "json \<Rightarrow> string"
  loads :: "string \<Rightarrow> load_result"
  repr :: "json \<Rightarrow> string"

definition format_value :: "pylib \<Rightarrow> json \<Rightarrow> string" where
  "format_value L v = (case v of JStr s \<Rightarrow> s | _ \<Rightarrow> repr L v)"

definition PARSE_ERROR :: int where "PARSE_ERROR = - 32700"
definition INVALID_REQUEST :: int where "INVALID_REQUEST = - 32600"
definition METHOD_NOT_FOUND :: int where "METHOD_NOT_FOUND = - 32601"
definition INVALID_PARAMS :: int where "INVALID_PARAMS = - 32602"
definition INTERNAL_ERROR :: int where "INTERNAL_ERROR = - 32603"

text \<open>\<^verbatim>\<open>MCPError\<close>; the field \<open>data\<close> is \<open>JNull\<close> for \<^verbatim>\<open>None\<close>.\<close>

record mcp_error =
  code :: int
  message :: string
  data :: json

definition MCPError :: "int \<Rightarrow> string \<Rightarrow> mcp_error" where
  "MCPError c m = \<lparr>code = c, message = m, data = JNull\<rparr>"

definition to_dict :: "mcp_error \<Rightarrow> json" where
  "to_dict e =
     JObj ([(''code'', JInt (code e)), (''message'', JStr (message e))] @
           (if data e \<noteq> JNull then [(''data'', data e)] else []))"

text \<open>
  What a \<^verbatim>\<open>try\<close> block can see raised: a protocol error or another exception.
\<close>

datatype exn = MCPErr mcp_error | PyExc pyexc

text \<open>
  A tool. \<open>execute\<close> is the call \<^verbatim>\<open>tool.execute(**arguments)\<close> on a dictionary of
  arguments: it takes the world \<open>'w\<close> the tool acts on and returns it with the result or
  the exception, the binding of the arguments to the parameters included.
\<close>

record 'w tool =
  name :: string
  description :: string
  parameters :: json
  execute :: "(string \<times> json) list \<Rightarrow> 'w \<Rightarrow> (pyexc + json) \<times> 'w"

definition tool_to_dict :: "'w tool \<Rightarrow> json" where
  "tool_to_dict t =
     JObj [(''name'', JStr (name t)),
           (''description'', JStr (description t)),
           (''inputSchema'', parameters t)]"

record 'w protocol =
  tools :: "(string \<times> 'w tool) list"
  initialized :: bool
  running :: bool

definition new_protocol :: "'w protocol" where
  "new_protocol = \<lparr>tools = [], initialized = False, running = False\<rparr>"

definition register_tool :: "'w protocol \<Rightarrow> 'w tool \<Rightarrow> 'w protocol" where
  "register_tool p t = p\<lparr>tools := dict_set (tools p) (name t) t\<rparr>"

definition unregister_tool :: "'w protocol \<Rightarrow> string \<Rightarrow> bool \<times> 'w protocol" where
  "unregister_tool p n =
     (if map_of (tools p) n \<noteq> None
      then (True, p\<lparr>tools := filter (\<lambda>kv. fst kv \<noteq> n) (tools p)\<rparr>)
      else (False, p))"

definition list_tools :: "'w protocol \<Rightarrow> json" where
  "list_tools p = JObj [(''tools'', JArr (map (\<lambda>kv. tool_to_dict (snd kv)) (tools p)))]"

text \<open>
  \<^verbatim>\<open>self.tools.get(name)\<close>: an array or an object cannot be hashed, and a value that
  is not a string equals no key.
\<close>

definition tools_get :: "(string \<times> 'w tool) list \<Rightarrow> json \<Rightarrow> pyexc + 'w tool option" where
  "tools_get ts key =
     (case key of
        JStr n \<Rightarrow> Inr (map_of ts n)
      | JArr _ \<Rightarrow> Inl (unhashable key)
      | JObj _ \<Rightarrow> Inl (unhashable key)
      | _ \<Rightarrow> Inr None)"

definition text_content :: "string \<Rightarrow> json" where
  "text_content s = JObj [(''content'', JArr [JObj [(''type'', JStr ''text''), (''text'', JStr s)]])]"

text \<open>\<^verbatim>\<open>MCPProtocol.call_tool\<close>.\<close>

definition call_tool :: "pylib \<Rightarrow> 'w protocol \<Rightarrow> 'w \<Rightarrow> json \<Rightarrow> (exn + json) \<times> 'w" where
  "call_tool L p w params =
     (case params of
        JObj ps \<Rightarrow>
          (let nm = dict_get ps ''name'';
               arguments = dict_get_default ps ''arguments'' (JObj [])
           in if \<not> truthy nm
              then (Inl (MCPErr (MCPError INVALID_PARAMS ''Missing tool name'')), w)
              else
                (case tools_get (tools p) nm of
                   Inl e \<Rightarrow> (Inl (PyExc e), w)
                 | Inr None \<Rightarrow>
                     (Inl (MCPErr (MCPError METHOD_NOT_FOUND
                             (''Tool not found: '' @ format_value L nm))), w)
                 | Inr (Some t) \<Rightarrow>
                     (case arguments of
                        JObj kwargs \<Rightarrow>
                          (case execute t kwargs w of
                             (Inr result, w') \<Rightarrow> (Inr (text_content (dumps L result)), w')
                           | (Inl e, w') \<Rightarrow>
                               (Inl (MCPErr (MCPError INTERNAL_ERROR (str_exc e))), w'))
                      | _ \<Rightarrow>
                          (Inl (MCPErr (MCPError INTERNAL_ERROR
                                  (str_exc (not_a_mapping arguments)))), w))))
      | _ \<Rightarrow> (Inl (PyExc (no_attribute_get params)), w))"

text \<open>\<^verbatim>\<open>MCPProtocol._handle_initialize\<close> and \<^verbatim>\<open>MCPProtocol._handle_shutdown\<close>.\<close>

definition handle_initialize :: "'w protocol \<Rightarrow> json \<Rightarrow> json \<times> 'w protocol" where
  "handle_initialize p params =
     (JObj [(''protocolVersion'', JStr ''2024-11-05''),
            (''capabilities'', JObj [(''tools'', JObj [])]),
            (''serverInfo'', JObj [(''name'', JStr ''mcp-server''),
                                   (''version'', JStr ''0.1.0'')])],
      p\<lparr>initialized := True\<rparr>)"

definition handle_shutdown :: "'w protocol \<Rightarrow> json \<times> 'w protocol" where
  "handle_shutdown p = (JObj [], p\<lparr>running := False\<rparr>)"

definition make_response :: "json \<Rightarrow> json \<Rightarrow> json" where
  "make_response request_id result =
     JObj [(''jsonrpc'', JStr ''2.0''), (''id'', request_id), (''result'', result)]"

definition make_error_response :: "json \<Rightarrow> mcp_error \<Rightarrow> json" where
  "make_error_response request_id error =
     JObj [(''jsonrpc'', JStr ''2.0''), (''id'', request_id), (''error'', to_dict error)]"

text \<open>
  The body of the \<^verbatim>\<open>try\<close> block of \<^verbatim>\<open>MCPProtocol.handle_request\<close>: the routing by
  method, with what it raises as a value.
\<close>

definition route :: "pylib \<Rightarrow> 'w protocol \<Rightarrow> 'w \<Rightarrow> json \<Rightarrow> json \<Rightarrow> (exn + json) \<times> 'w protocol \<times> 'w" where
  "route L p w method params =
     (if method = JStr ''initialize'' then
        (case handle_initialize p params of (result, p') \<Rightarrow> (Inr result, p', w))
      else if method = JStr ''tools/list'' then (Inr (list_tools p), p, w)
      else if method = JStr ''tools/call'' then
        (case call_tool L p w params of (r, w') \<Rightarrow> (r, p, w'))
      else if method = JStr ''shutdown'' then
        (case handle_shutdown p of (result, p') \<Rightarrow> (Inr result, p', w))
      else (Inl (MCPErr (MCPError METHOD_NOT_FOUND
                    (''Unknown method: '' @ format_value L method))), p, w))"

text \<open>
  \<^verbatim>\<open>MCPProtocol.handle_request\<close> on a request that is a dictionary: both
  \<^verbatim>\<open>except\<close> clauses are branches.
\<close>

definition handle_request ::
  "pylib \<Rightarrow> 'w protocol \<Rightarrow> 'w \<Rightarrow> (string \<times> json) list \<Rightarrow> json \<times> 'w protocol \<times> 'w" where
  "handle_request L p w request =
     (let request_id = dict_get request ''id'';
          method = dict_get request ''method'';
          params = dict_get_default request ''params'' (JObj [])
      in case route L p w method params of
           (Inr result, p', w') \<Rightarrow> (make_response request_id result, p', w')
         | (Inl (MCPErr e), p', w') \<Rightarrow> (make_error_response request_id e, p', w')
         | (Inl (PyExc e), p', w') \<Rightarrow>
             (make_error_response request_id (MCPError INTERNAL_ERROR (str_exc e)), p', w'))"

text \<open>
  The loop of \<^verbatim>\<open>MCPProtocol.run\<close>. The input is the list of what
  \<^verbatim>\<open>sys.stdin.readline()\<close> gives before the end of the stream, a line or an exception;
  the result is the list of lines written to the output, with the final state. Writing to
  the output is taken to succeed. A line that parses to a value that is not a dictionary
  makes \<^verbatim>\<open>handle_request\<close> raise at its first statement; this exception, one raised
  by \<^verbatim>\<open>readline\<close> and one other than \<^verbatim>\<open>JSONDecodeError\<close> raised by
  \<^verbatim>\<open>json.loads\<close> all reach the last \<^verbatim>\<open>except\<close> clause, which leaves the loop.
\<close>

datatype read = Line string | ReadRaised pyexc

fun run_loop ::
  "unicode \<Rightarrow> pylib \<Rightarrow> 'w protocol \<Rightarrow> 'w \<Rightarrow> read list \<Rightarrow> string list \<times> 'w protocol \<times> 'w" where
  "run_loop U L p w [] = ([], p, w)"
| "run_loop U L p w (ReadRaised e # rest) = ([], p, w)"
| "run_loop U L p w (Line line # rest) =
     (if \<not> running p then ([], p, w)
      else if line = [] then ([], p, w)
      else
        let l = str_strip U line
        in if l = [] then run_loop U L p w rest
           else
             (case loads L l of
                JSONDecodeError msg \<Rightarrow>
                  (let response = make_error_response JNull (MCPError PARSE_ERROR msg);
                       (out, p', w') = run_loop U L p w rest
                   in ((dumps L response @ [CHR 0x0A]) # out, p', w'))
              | LoadRaised e \<Rightarrow> ([], p, w)
              | Loaded (JObj request) \<Rightarrow>
                  (let (response, p1, w1) = handle_request L p w request;
                       (out, p', w') = run_loop U L p1 w1 rest
                   in ((dumps L response @ [CHR 0x0A]) # out, p', w'))
              | Loaded _ \<Rightarrow> ([], p, w)))"

definition run ::
  "unicode \<Rightarrow> pylib \<Rightarrow> 'w protocol \<Rightarrow> 'w \<Rightarrow> read list \<Rightarrow> string list \<times> 'w protocol \<times> 'w" where
  "run U L p w input = run_loop U L (p\<lparr>running := True\<rparr>) w input"

text \<open>
  The tools of the test suite: \<^verbatim>\<open>MockTool\<close> echoes its one required argument,
  \<^verbatim>\<open>FailingTool\<close> takes no argument and raises.
\<close>

definition MockTool :: "'w tool" where
  "MockTool =
     \<lparr>name = ''mock.tool'',
      description = ''A mock tool for testing'',
      parameters = JObj [(''type'', JStr ''object''),
                         (''properties'', JObj [(''value'', JObj [(''type'', JStr ''string'')])]),
                         (''required'', JArr [JStr ''value''])],
      execute = (\<lambda>kwargs w.
         case filter (\<lambda>k. k \<noteq> ''value'') (map fst kwargs) of
           k # _ \<Rightarrow> (Inl (unexpected_argument k), w)
         | [] \<Rightarrow> (case map_of kwargs ''value'' of
                    None \<Rightarrow> (Inl (missing_argument ''value''), w)
                  | Some v \<Rightarrow> (Inr (JObj [(''echoed'', v)]), w)))\<rparr>"

definition FailingTool :: "'w tool" where
  "FailingTool =
     \<lparr>name = ''failing.tool'',
      description = ''A tool that always fails'',
      parameters = JObj [(''type'', JStr ''object''), (''properties'', JObj [])],
      execute = (\<lambda>kwargs w.
         case kwargs of
           (k, _) # _ \<Rightarrow> (Inl (unexpected_argument k), w)
         | [] \<Rightarrow> (Inl (ValueError ''Tool failed''), w))\<rparr>"

section \<open>Example data\<close>

text \<open>
  A text with a no-break space and a capital letter outside ASCII. A store holding two
  records that share the tag \<open>a b\<close>; their contents are too short
  to give keywords. It is the store two writes leave behind. The second store has the
  same records and an index that no write produces: it lists a name that leads to the
  index file itself.
\<close>

definition example_text :: string where
  "example_text = ''Hello, world! a-b'' @ [CHR 0xA0] @ ''Caf'' @ [CHR 0xC9]"

definition example_item :: "string \<Rightarrow> string \<Rightarrow> item" where
  "example_item mid txt =
     \<lparr>item_id = mid, created_at = ''2024-01-01T00:00:00Z'',
      updated_at = ''2024-01-01T00:00:00Z'', content = txt, item_keywords = [''a b'']\<rparr>"

definition example_store :: store where
  "example_store =
     \<lparr>items = [''mem_aaaaaaaaaaaa'' \<mapsto> example_item ''mem_aaaaaaaaaaaa'' ''x'',
               ''mem_bbbbbbbbbbbb'' \<mapsto> example_item ''mem_bbbbbbbbbbbb'' ''y''],
      index_file = Some [(''a b'', [''mem_aaaaaaaaaaaa'', ''mem_bbbbbbbbbbbb''])],
      elsewhere = (\<lambda>nm. None)\<rparr>"

definition odd_store :: store where
  "odd_store =
     example_store\<lparr>index_file :=
       Some [(''a b'', [''mem_aaaaaaaaaaaa'', ''../index/keyword''])]\<rparr>"

text \<open>
  A stand-in for the library in the examples. \<^verbatim>\<open>loads\<close> knows three lines: an
  \<^verbatim>\<open>initialize\<close> request, a line that is not JSON, and a line of a hundred thousand
  opening brackets, on which the decoder exceeds the recursion limit. \<open>good_line\<close> and
  \<open>bad_line\<close> are the first two as they are read, with the line end and, on the
  first, a no-break space in front. An envelope is
  printed as the key of its third entry. The example dispatcher has the two tools of the
  test suite registered.
\<close>

definition request_line :: string where
  "request_line = ''{'' @ [CHR 0x22] @ ''method'' @ [CHR 0x22] @ '': '' @
                  [CHR 0x22] @ ''initialize'' @ [CHR 0x22] @ ''}''"

definition good_line :: string where
  "good_line = [CHR 0xA0] @ request_line @ [CHR 0x0A]"

definition bad_line :: string where
  "bad_line = ''not json'' @ [CHR 0x0A]"

definition deep_line :: string where
  "deep_line = replicate 100000 (CHR ''['')"

definition example_lib :: pylib where
  "example_lib =
     \<lparr>dumps = (\<lambda>v. case v of JObj (_ # _ # (k, _) # _) \<Rightarrow> k | _ \<Rightarrow> ''other''),
      loads = (\<lambda>s. if s = request_line then Loaded (JObj [(''method'', JStr ''initialize'')])
                    else if s = deep_line
                    then LoadRaised (RecursionError
                           ''maximum recursion depth exceeded while decoding a JSON array'')
                    else JSONDecodeError ''Expecting value: line 1 column 1 (char 0)''),
      repr = type_name\<rparr>"

definition example_protocol :: "unit protocol" where
  "example_protocol = register_tool (register_tool new_protocol MockTool) FailingTool"

section \<open>Sets and enumerations\<close>

lemma set_set_add: "set (set_add x s) = insert x (set s)"
  by (auto simp: set_add_def)

lemma distinct_set_add: "distinct s \<Longrightarrow> distinct (set_add x s)"
  by (simp add: set_add_def)

lemma is_enumeration_set: "is_enumeration enum \<Longrightarrow> set (enum xs) = set xs"
  unfolding is_enumeration_def by (metis mset_eq_setD)

lemma is_enumeration_distinct: "is_enumeration enum \<Longrightarrow> distinct (enum xs) = distinct xs"
  unfolding is_enumeration_def by (metis mset_eq_imp_distinct_iff)

lemma is_enumeration_id: "is_enumeration id"
  by (simp add: is_enumeration_def)

lemma is_enumeration_rev: "is_enumeration rev"
  by (simp add: is_enumeration_def)

section \<open>Tokens\<close>

text \<open>
  The scan of \<^verbatim>\<open>split\<close> yields exactly the tokens: the maximal runs without
  whitespace.
\<close>

lemma split_from_run:
  assumes "cur \<noteq> []"
  shows "split_from U cur s =
      (cur @ takeWhile (\<lambda>c. \<not> isspace U c) s) # split_from U [] (dropWhile (\<lambda>c. \<not> isspace U c) s)"
  using assms
proof (induction s arbitrary: cur)
  case Nil
  then show ?case by simp
next
  case (Cons c cs)
  show ?case
  proof (cases "isspace U c")
    case True
    then show ?thesis using Cons.prems by simp
  next
    case False
    then show ?thesis using Cons.IH [of "cur @ [c]"] by simp
  qed
qed

lemma split_from_Nil_space: "isspace U c \<Longrightarrow> split_from U [] (c # cs) = split_from U [] cs"
  by simp

lemma split_from_single:
  "split_from U [c] cs =
     (c # takeWhile (\<lambda>c. \<not> isspace U c) cs) # split_from U [] (dropWhile (\<lambda>c. \<not> isspace U c) cs)"
  using split_from_run [of "[c]" U cs] by simp

lemma is_token_space_Cons:
  assumes "isspace U c"
  shows "is_token U w (c # cs) = is_token U w cs"
proof
  assume "is_token U w (c # cs)"
  then obtain pre post where w: "w \<noteq> []" "\<forall>x \<in> set w. \<not> isspace U x"
    and e: "c # cs = pre @ w @ post"
    and b: "pre = [] \<or> isspace U (last pre)" "post = [] \<or> isspace U (hd post)"
    unfolding is_token_def by blast
  have "pre \<noteq> []"
  proof
    assume "pre = []"
    then have "c = hd w" using e w(1) by (cases w) auto
    then show False using w assms by (cases w) auto
  qed
  then obtain pre' where p: "pre = c # pre'" using e by (cases pre) auto
  then have "cs = pre' @ w @ post" using e by simp
  moreover have "pre' = [] \<or> isspace U (last pre')" using b(1) p by (cases "pre' = []") auto
  ultimately show "is_token U w cs" unfolding is_token_def using w b(2) by blast
next
  assume "is_token U w cs"
  then obtain pre post where w: "w \<noteq> []" "\<forall>x \<in> set w. \<not> isspace U x"
    and e: "cs = pre @ w @ post"
    and b: "pre = [] \<or> isspace U (last pre)" "post = [] \<or> isspace U (hd post)"
    unfolding is_token_def by blast
  have "c # cs = (c # pre) @ w @ post" using e by simp
  moreover have "isspace U (last (c # pre))" using b(1) assms by (cases "pre = []") auto
  ultimately show "is_token U w (c # cs)" unfolding is_token_def using w b(2) by blast
qed

lemma is_token_nonspace_Cons:
  assumes "\<not> isspace U c"
  shows "is_token U w (c # cs) \<longleftrightarrow>
     w = c # takeWhile (\<lambda>c. \<not> isspace U c) cs \<or> is_token U w (dropWhile (\<lambda>c. \<not> isspace U c) cs)"
proof -
  let ?t = "takeWhile (\<lambda>c. \<not> isspace U c) cs"
  let ?d = "dropWhile (\<lambda>c. \<not> isspace U c) cs"
  have cs: "cs = ?t @ ?d" by simp
  have t: "\<forall>x \<in> set (c # ?t). \<not> isspace U x" using assms by (auto dest: set_takeWhileD)
  have d: "?d = [] \<or> isspace U (hd ?d)" using hd_dropWhile [of "\<lambda>c. \<not> isspace U c" cs] by auto
  show ?thesis
  proof (intro iffI)
    assume "is_token U w (c # cs)"
    then obtain pre post where w: "w \<noteq> []" "\<forall>x \<in> set w. \<not> isspace U x"
      and e: "c # cs = pre @ w @ post"
      and b: "pre = [] \<or> isspace U (last pre)" "post = [] \<or> isspace U (hd post)"
      unfolding is_token_def by blast
    show "w = c # ?t \<or> is_token U w ?d"
    proof (cases "pre = []")
      case True
      then have e': "c # cs = w @ post" using e by simp
      have "takeWhile (\<lambda>c. \<not> isspace U c) (w @ post) = w"
        using w(2) b(2) by (cases post) (auto simp: takeWhile_append2 intro: takeWhile_eq_all_conv[THEN iffD2])
      then have "takeWhile (\<lambda>c. \<not> isspace U c) (c # cs) = w" using e' by simp
      then show ?thesis using assms by simp
    next
      case False
      then have sp: "isspace U (last pre)" using b(1) by simp
      have e2: "(c # ?t) @ ?d = pre @ (w @ post)" using e cs by (metis append_Cons)
      have "\<exists>us. c # ?t = pre @ us \<or> ((c # ?t) @ us = pre \<and> ?d = us @ (w @ post))"
        using e2 [unfolded append_eq_append_conv2] by blast
      then consider us where "c # ?t = pre @ us"
        | us where "(c # ?t) @ us = pre" "?d = us @ w @ post"
        by blast
      then show ?thesis
      proof cases
        case 1
        then have "last pre \<in> set (c # ?t)" using False
          by (metis Un_iff last_in_set set_append)
        then show ?thesis using sp t by blast
      next
        case 2
        have "us \<noteq> []"
        proof
          assume "us = []"
          then have "pre = c # ?t" using 2 by simp
          then have "last pre \<in> set (c # ?t)" by (metis last_in_set list.distinct(1))
          then show False using sp t by blast
        qed
        then have "isspace U (last us)" using sp 2(1) by (metis last_appendR)
        then have "is_token U w ?d" unfolding is_token_def using w b(2) 2(2) \<open>us \<noteq> []\<close> by blast
        then show ?thesis by simp
      qed
    qed
  next
    assume a: "w = c # ?t \<or> is_token U w ?d"
    show "is_token U w (c # cs)"
    proof (cases "w = c # ?t")
      case True
      have "c # cs = [] @ w @ ?d" using True cs by simp
      then show ?thesis unfolding is_token_def using True t d by blast
    next
      case False
      then have "is_token U w ?d" using a by simp
      then obtain pre post where w: "w \<noteq> []" "\<forall>x \<in> set w. \<not> isspace U x"
        and e: "?d = pre @ w @ post"
        and b: "pre = [] \<or> isspace U (last pre)" "post = [] \<or> isspace U (hd post)"
        unfolding is_token_def by blast
      have "pre \<noteq> []"
      proof
        assume "pre = []"
        then have "hd ?d = hd w" "?d \<noteq> []" using e w(1) by (cases w; simp)+
        then show False using d w by (cases w) auto
      qed
      then have "isspace U (last ((c # ?t) @ pre))" using b(1) by simp
      moreover have "c # cs = ((c # ?t) @ pre) @ w @ post" using e cs by (metis append.assoc append_Cons)
      ultimately show ?thesis unfolding is_token_def using w b(2) by blast
    qed
  qed
qed

lemma is_token_Nil: "\<not> is_token U w []"
  by (auto simp: is_token_def)

lemma set_split_from_tokens: "set (split_from U [] s) = {w. is_token U w s}"
proof (induction "length s" arbitrary: s rule: less_induct)
  case less
  show ?case
  proof (cases s)
    case Nil
    then show ?thesis by (simp add: is_token_Nil)
  next
    case (Cons c cs)
    show ?thesis
    proof (cases "isspace U c")
      case True
      have "set (split_from U [] cs) = {w. is_token U w cs}" using less [of cs] Cons by simp
      then show ?thesis using True Cons by (simp add: is_token_space_Cons)
    next
      case False
      let ?d = "dropWhile (\<lambda>c. \<not> isspace U c) cs"
      have "length ?d < length s" using Cons by (simp add: le_imp_less_Suc length_dropWhile_le)
      then have "set (split_from U [] ?d) = {w. is_token U w ?d}" using less [of ?d] by simp
      then show ?thesis using False Cons
        by (auto simp: split_from_single is_token_nonspace_Cons)
    qed
  qed
qed

lemma set_str_split: "set (str_split U s) = {w. is_token U w s}"
  by (simp add: str_split_def set_split_from_tokens)

text \<open>
  Where \<^verbatim>\<open>lower\<close> acts on each character by itself and keeps whitespace apart from
  the other characters, as it does on the code points below 256, folding a string folds
  its tokens.
\<close>

lemma split_from_map:
  assumes "\<And>c. isspace U (f c) = isspace U c"
  shows "split_from U (map f cur) (map f cs) = map (map f) (split_from U cur cs)"
proof (induction cs arbitrary: cur)
  case Nil
  then show ?case by simp
next
  case (Cons c cs)
  have e: "split_from U [] (map f cs) = map (map f) (split_from U [] cs)"
    using Cons.IH [of "[]"] by simp
  have n: "split_from U (map f cur @ [f c]) (map f cs) = map (map f) (split_from U (cur @ [c]) cs)"
    using Cons.IH [of "cur @ [c]"] by simp
  show ?case by (simp add: assms e n)
qed

lemma lower_tokenwise_charwise:
  assumes "lower U = map f" "\<And>c. isspace U (f c) = isspace U c"
  shows "lower_tokenwise U"
proof -
  have "set (str_split U (lower U s)) = lower U ` set (str_split U s)" for s
    unfolding str_split_def assms(1) using split_from_map [OF assms(2), of "[]" s] by simp
  then show ?thesis unfolding lower_tokenwise_def by (simp add: set_str_split)
qed

lemma isspace_latin1_lower_char: "latin1_isspace (latin1_lower_char c) = latin1_isspace c"
  by (auto simp: latin1_isspace_def latin1_lower_char_def Let_def)

lemma lower_tokenwise_latin1: "lower_tokenwise latin1"
  by (rule lower_tokenwise_charwise [of latin1 latin1_lower_char])
     (simp_all add: latin1_def isspace_latin1_lower_char)

section \<open>Keyword extraction\<close>

lemma set_fold_tags:
  "set (fold (\<lambda>kw acc. set_add (f kw) acc) xs acc) = f ` set xs \<union> set acc"
  by (induction xs arbitrary: acc) (auto simp: set_set_add)

lemma set_fold_words:
  "set (fold (\<lambda>word acc. let cleaned = g word in if P cleaned then set_add cleaned acc else acc) ws acc)
     = {w. \<exists>x \<in> set ws. w = g x \<and> P w} \<union> set acc"
  by (induction ws arbitrary: acc) (auto simp: set_set_add Let_def)

lemma set_extract_keywords:
  assumes "is_enumeration enum"
  shows "set (extract_keywords U enum it) =
      {w. \<exists>x \<in> set (str_split U (lower U (content it))).
             w = filter (isalnum U) x \<and> 3 \<le> length w}
      \<union> lower U ` set (item_keywords it)"
  unfolding extract_keywords_def Let_def
  using set_fold_words [of "filter (isalnum U)" "\<lambda>w. 3 \<le> length w"]
  by (simp add: is_enumeration_set [OF assms] set_fold_tags Let_def)

lemma spec_keywords_tokenwise_eq:
  assumes "lower_tokenwise U"
  shows "spec_keywords_tokenwise U tags txt = spec_keywords U tags txt"
proof -
  have t: "{tok. is_token U tok (lower U txt)} = lower U ` {tok. is_token U tok txt}"
    using assms unfolding lower_tokenwise_def by blast
  have "{w. \<exists>tok. is_token U tok (lower U txt) \<and> w = filter (isalnum U) tok \<and> 3 \<le> length w}
      = {w. \<exists>tok. is_token U tok txt \<and> w = filter (isalnum U) (lower U tok) \<and> 3 \<le> length w}"
    (is "?A = ?B")
  proof (intro set_eqI iffI)
    fix w assume "w \<in> ?A"
    then obtain tok where k: "is_token U tok (lower U txt)" "w = filter (isalnum U) tok" "3 \<le> length w"
      by blast
    then have "tok \<in> lower U ` {tok. is_token U tok txt}" using t by blast
    then show "w \<in> ?B" using k by blast
  next
    fix w assume "w \<in> ?B"
    then obtain tok where k: "is_token U tok txt" "w = filter (isalnum U) (lower U tok)" "3 \<le> length w"
      by blast
    then have "lower U tok \<in> {tok. is_token U tok (lower U txt)}" using t by blast
    then show "w \<in> ?A" using k by blast
  qed
  then show ?thesis unfolding spec_keywords_def spec_keywords_tokenwise_def by simp
qed

text \<open>
  Claim C4. For every record, the keyword set that the index update derives is the union
  of the record's tags, case-folded, and the whitespace-delimited tokens of its content,
  case-folded and stripped of non-alphanumeric characters, kept when the stripped length
  is at least 3. This holds for every table of whitespace and alphanumeric characters and
  every case folding, with the tokens taken from the folded content; with each token
  folded after the cut it holds where folding a string folds its tokens. The order in
  which the set is listed does not matter.
\<close>

theorem extract_keywords_spec:
  assumes "is_enumeration enum"
  shows "set (extract_keywords U enum it) = spec_keywords U (item_keywords it) (content it) \<and>
         (lower_tokenwise U \<longrightarrow>
            set (extract_keywords U enum it)
              = spec_keywords_tokenwise U (item_keywords it) (content it))"
proof -
  have "{w. \<exists>x \<in> set (str_split U (lower U (content it))).
             w = filter (isalnum U) x \<and> 3 \<le> length w}
      \<union> lower U ` set (item_keywords it) = spec_keywords U (item_keywords it) (content it)"
    unfolding spec_keywords_def by (auto simp: set_str_split)
  then have "set (extract_keywords U enum it) = spec_keywords U (item_keywords it) (content it)"
    using set_extract_keywords [OF assms, of U it] by simp
  then show ?thesis by (simp add: spec_keywords_tokenwise_eq)
qed

lemma extract_keywords_example:
  "extract_keywords latin1 id
     \<lparr>item_id = ''mem_a'', created_at = ''t'', updated_at = ''t'',
      content = example_text, item_keywords = [''Tag'']\<rparr>
   = [''tag'', ''hello'', ''world'', ''caf'' @ [CHR 0xE9]]"
  by (simp add: extract_keywords_def example_text_def latin1_def latin1_isspace_def
      latin1_isalnum_def latin1_lower_char_def str_split_def set_add_def char_of_def
      bit_iff_odd Let_def)

theorem extract_keywords_spec_witness:
  "is_enumeration (id :: string list \<Rightarrow> string list) \<and> lower_tokenwise latin1 \<and>
   {''tag'', ''hello'', ''world'', ''caf'' @ [CHR 0xE9]}
     = spec_keywords latin1 [''Tag''] example_text \<and>
   {''tag'', ''hello'', ''world'', ''caf'' @ [CHR 0xE9]}
     = spec_keywords_tokenwise latin1 [''Tag''] example_text"
proof -
  note t = extract_keywords_spec [OF is_enumeration_id, of latin1
      "\<lparr>item_id = ''mem_a'', created_at = ''t'', updated_at = ''t'',
        content = example_text, item_keywords = [''Tag'']\<rparr>"]
  have a: "{''tag'', ''hello'', ''world'', ''caf'' @ [CHR 0xE9]}
     = spec_keywords latin1 [''Tag''] example_text"
    using t [THEN conjunct1] by (simp add: extract_keywords_example)
  have b: "{''tag'', ''hello'', ''world'', ''caf'' @ [CHR 0xE9]}
     = spec_keywords_tokenwise latin1 [''Tag''] example_text"
    using t [THEN conjunct2, THEN mp, OF lower_tokenwise_latin1]
    by (simp add: extract_keywords_example)
  show ?thesis using a b is_enumeration_id lower_tokenwise_latin1 by blast
qed

section \<open>Item paths\<close>

lemma path_split_plain: "CHR ''/'' \<notin> set s \<Longrightarrow> path_split cur s = [cur @ s]"
  by (induction s arbitrary: cur) auto

text \<open>A name without a slash denotes the file of that name in the items directory.\<close>

lemma read_item_path_plain:
  assumes "CHR ''/'' \<notin> set nm"
  shows "read_item_path fs nm = map_option (\<lambda>it. Inr (item_json it)) (items fs nm)"
proof -
  have h: "\<not> (nm \<noteq> [] \<and> hd nm = CHR ''/'')" using assms by (cases nm) auto
  have "CHR ''/'' \<notin> set (nm @ ''.json'')" using assms by simp
  then have p: "path_split [] (nm @ ''.json'') = [nm @ ''.json'']"
    using path_split_plain [of "nm @ ''.json''" "[]"] by simp
  show ?thesis unfolding read_item_path_def p using h by auto
qed

lemma generate_memory_id_nonempty: "generate_memory_id draw \<noteq> []"
  by (simp add: generate_memory_id_def)

lemma chars_plain: "CHR ''/'' \<notin> set chars"
  by (simp add: chars_def)

lemma generate_memory_id_plain: "CHR ''/'' \<notin> set (generate_memory_id draw)"
proof -
  have "chars ! (draw i mod length chars) \<in> set chars" for i
    by (rule nth_mem) (simp add: chars_def)
  then have "CHR ''/'' \<noteq> chars ! (draw i mod length chars)" for i
    using chars_plain by metis
  then show ?thesis by (auto simp: generate_memory_id_def)
qed

section \<open>Search\<close>

lemma str_in_sublist: "str_in sub s = sublist sub s"
  by (induction s) (auto simp: sublist_Cons_right)

lemma str_in_iff: "str_in sub s \<longleftrightarrow> (\<exists>p t. s = p @ sub @ t)"
  by (simp add: str_in_sublist sublist_def)

lemma set_fold_set_add: "set (fold set_add xs acc) = set xs \<union> set acc"
  by (induction xs arbitrary: acc) (auto simp: set_set_add)

lemma distinct_fold_set_add: "distinct acc \<Longrightarrow> distinct (fold set_add xs acc)"
  by (induction xs arbitrary: acc) (auto simp: distinct_set_add)

lemma set_fold_matching:
  "set (fold (\<lambda>(keyword, ids) acc. if P keyword then fold set_add ids acc else acc) index acc)
     = set acc \<union> {mid. \<exists>(keyword, ids) \<in> set index. P keyword \<and> mid \<in> set ids}"
  by (induction index arbitrary: acc) (auto simp: set_fold_set_add split: if_splits)

lemma distinct_fold_matching:
  "distinct acc \<Longrightarrow>
   distinct (fold (\<lambda>(keyword, ids) acc. if P keyword then fold set_add ids acc else acc) index acc)"
  by (induction index arbitrary: acc) (auto simp: distinct_fold_set_add)

lemma set_matching_ids: "set (matching_ids index q) = spec_matching index q"
  unfolding matching_ids_def spec_matching_def
  by (simp add: set_fold_matching str_in_iff)

lemma distinct_matching_ids: "distinct (matching_ids index q)"
  unfolding matching_ids_def by (rule distinct_fold_matching) simp

lemma spec_matching_plain:
  assumes "plain_index fs" "mid \<in> spec_matching (index_of fs) q"
  shows "CHR ''/'' \<notin> set mid"
  using assms unfolding plain_index_def spec_matching_def by blast

lemma str_strip_Nil: "str_strip U s = [] \<longleftrightarrow> (\<forall>c \<in> set s. isspace U c)"
proof
  assume "str_strip U s = []"
  then have a: "\<forall>c \<in> set (dropWhile (isspace U) s). isspace U c"
    by (simp add: str_strip_def dropWhile_eq_Nil_conv)
  have "dropWhile (isspace U) s = []"
  proof (rule ccontr)
    assume n: "dropWhile (isspace U) s \<noteq> []"
    then have "\<not> isspace U (hd (dropWhile (isspace U) s))" by (rule hd_dropWhile)
    moreover have "hd (dropWhile (isspace U) s) \<in> set (dropWhile (isspace U) s)"
      using n by simp
    ultimately show False using a by blast
  qed
  then show "\<forall>c \<in> set s. isspace U c" by (simp add: dropWhile_eq_Nil_conv)
next
  assume "\<forall>c \<in> set s. isspace U c"
  then have d: "dropWhile (isspace U) s = []" by (simp add: dropWhile_eq_Nil_conv)
  show "str_strip U s = []" unfolding str_strip_def d by simp
qed

lemma blank_cases:
  "(query = [] \<or> str_strip U query = []) \<longleftrightarrow> (\<forall>c \<in> set query. isspace U c)"
  by (auto simp: str_strip_Nil)

lemma py_slice_to_nonneg: "0 \<le> k \<Longrightarrow> py_slice_to xs k = take (nat k) xs"
  by (simp add: py_slice_to_def)

lemma py_slice_to_neg: "k < 0 \<Longrightarrow> py_slice_to xs k = rev (drop (nat (- k)) (rev xs))"
  by (simp add: py_slice_to_def drop_rev)

lemma set_py_slice_to: "set (py_slice_to xs k) \<subseteq> set xs"
  by (auto simp: py_slice_to_def dest: in_set_takeD)

lemma truthy_item_json: "truthy (item_json it)"
  by (simp add: item_json_def)

lemma search_hit_item_json:
  "search_hit (item_json it) =
     Inr (JObj [(''id'', JStr (item_id it)), (''content'', JStr (content it)),
                (''keywords'', JArr (map JStr (item_keywords it)))])"
  by (simp add: search_hit_def item_json_def py_subscript_def dict_get_default_def)

text \<open>
  Over identifiers without a slash the loading loop never raises: it lists what the
  records that exist hold and skips the others.
\<close>

lemma load_results_plain:
  assumes "\<forall>mid \<in> set mids. CHR ''/'' \<notin> set mid"
  shows "load_results fs mids =
     Inr (List.map_filter
            (\<lambda>mid. map_option
               (\<lambda>it. JObj [(''id'', JStr (item_id it)), (''content'', JStr (content it)),
                           (''keywords'', JArr (map JStr (item_keywords it)))])
               (items fs mid)) mids)"
  using assms
proof (induction mids)
  case Nil
  then show ?case by (simp add: List.map_filter_simps)
next
  case (Cons mid mids)
  then have p: "CHR ''/'' \<notin> set mid" and r: "\<forall>m \<in> set mids. CHR ''/'' \<notin> set m" by simp_all
  show ?case
  proof (cases "items fs mid")
    case None
    then show ?thesis using Cons.IH [OF r]
      by (simp add: load_item_def read_item_path_plain [OF p] List.map_filter_simps)
  next
    case (Some it)
    then show ?thesis using Cons.IH [OF r]
      by (simp add: load_item_def read_item_path_plain [OF p] truthy_item_json
          search_hit_item_json List.map_filter_simps)
  qed
qed

lemma search_blank:
  assumes "\<forall>c \<in> set query. isspace U c"
  shows "MemorySearchTool_execute U enum fs query top_k
           = Inr (JObj [(''results'', JArr []), (''count'', JInt 0)])"
  using assms blank_cases [of query U]
  by (simp add: MemorySearchTool_execute_def search_result_def)

lemma search_not_blank:
  assumes "\<not> (\<forall>c \<in> set query. isspace U c)"
  shows "MemorySearchTool_execute U enum fs query top_k
      = (case load_results fs
                (py_slice_to (enum (matching_ids (index_of fs) (lower U query)))
                   (case top_k of None \<Rightarrow> 5 | Some n \<Rightarrow> n)) of
           Inl e \<Rightarrow> Inl e
         | Inr results \<Rightarrow> Inr (search_result results))"
proof -
  have c: "\<not> (query = [] \<or> str_strip U query = [])"
    using assms blank_cases [of query U] by blast
  show ?thesis
    unfolding MemorySearchTool_execute_def index_of_def Let_def
    using c by simp
qed

text \<open>
  With an index whose identifiers have no slash, a search on a query that is not blank
  returns the records of the identifiers that the slice keeps.
\<close>

lemma search_plain:
  assumes "is_enumeration enum" "plain_index fs" "\<not> (\<forall>c \<in> set query. isspace U c)"
  shows "MemorySearchTool_execute U enum fs query top_k
      = Inr (search_result
          (List.map_filter
            (\<lambda>mid. map_option
               (\<lambda>it. JObj [(''id'', JStr (item_id it)), (''content'', JStr (content it)),
                           (''keywords'', JArr (map JStr (item_keywords it)))])
               (items fs mid))
            (py_slice_to (enum (matching_ids (index_of fs) (lower U query)))
               (case top_k of None \<Rightarrow> 5 | Some n \<Rightarrow> n))))"
proof -
  let ?ids = "enum (matching_ids (index_of fs) (lower U query))"
  let ?k = "case top_k of None \<Rightarrow> 5 | Some n \<Rightarrow> n"
  have "set (py_slice_to ?ids ?k) \<subseteq> spec_matching (index_of fs) (lower U query)"
    using set_py_slice_to [of ?ids ?k]
    by (simp add: is_enumeration_set [OF assms(1)] set_matching_ids)
  then have "\<forall>mid \<in> set (py_slice_to ?ids ?k). CHR ''/'' \<notin> set mid"
    using spec_matching_plain [OF assms(2)] by blast
  then show ?thesis
    using search_not_blank [OF assms(3), of enum fs top_k] by (simp add: load_results_plain)
qed

text \<open>
  Claim C2, as amended. \<^verbatim>\<open>memory.search\<close> case-folds the query. A query that is empty
  or consists of whitespace only returns no results and count 0, whatever the index
  holds, and is not an error. Otherwise, for every index whose identifiers have no path
  separator, as every index that \<^verbatim>\<open>memory.write\<close> leaves, the identifiers under every
  keyword that contains the case-folded query are collected without duplicates, the first
  \<open>top_k\<close> of them (5 by default) in the order the set is enumerated are kept, the
  records that still exist are loaded, the others skipped, and the result lists
  identifier, content and keywords of each, with their number as count.
\<close>

theorem search_spec:
  "((\<forall>c \<in> set query. isspace U c) \<longrightarrow>
      MemorySearchTool_execute U enum fs query top_k
        = Inr (JObj [(''results'', JArr []), (''count'', JInt 0)])) \<and>
   (is_enumeration enum \<and> plain_index fs \<and> \<not> (\<forall>c \<in> set query. isspace U c) \<longrightarrow>
            (\<exists>ids kept results.
               distinct ids \<and>
               set ids = spec_matching (index_of fs) (lower U query) \<and>
               kept = (case top_k of
                         None \<Rightarrow> take 5 ids
                       | Some n \<Rightarrow> if 0 \<le> n then take (nat n) ids
                                  else rev (drop (nat (- n)) (rev ids))) \<and>
               results = List.map_filter
                 (\<lambda>mid. map_option
                    (\<lambda>it. JObj [(''id'', JStr (item_id it)), (''content'', JStr (content it)),
                                (''keywords'', JArr (map JStr (item_keywords it)))])
                    (items fs mid)) kept \<and>
               MemorySearchTool_execute U enum fs query top_k
                 = Inr (JObj [(''results'', JArr results),
                              (''count'', JInt (int (length results)))])))"
proof (intro conjI impI)
  assume "\<forall>c \<in> set query. isspace U c"
  then show "MemorySearchTool_execute U enum fs query top_k
              = Inr (JObj [(''results'', JArr []), (''count'', JInt 0)])"
    by (rule search_blank)
next
  assume a: "is_enumeration enum \<and> plain_index fs \<and> \<not> (\<forall>c \<in> set query. isspace U c)"
  then have en: "is_enumeration enum" and pl: "plain_index fs"
    and nb: "\<not> (\<forall>c \<in> set query. isspace U c)" by simp_all
  let ?ids = "enum (matching_ids (index_of fs) (lower U query))"
  let ?kept = "case top_k of
                 None \<Rightarrow> take 5 ?ids
               | Some n \<Rightarrow> if 0 \<le> n then take (nat n) ?ids
                          else rev (drop (nat (- n)) (rev ?ids))"
  let ?results = "List.map_filter
                 (\<lambda>mid. map_option
                    (\<lambda>it. JObj [(''id'', JStr (item_id it)), (''content'', JStr (content it)),
                                (''keywords'', JArr (map JStr (item_keywords it)))])
                    (items fs mid)) ?kept"
  have d: "distinct ?ids"
    by (simp add: is_enumeration_distinct [OF en] distinct_matching_ids)
  have s: "set ?ids = spec_matching (index_of fs) (lower U query)"
    by (simp add: is_enumeration_set [OF en] set_matching_ids)
  have k: "py_slice_to ?ids (case top_k of None \<Rightarrow> 5 | Some n \<Rightarrow> n) = ?kept"
    by (cases top_k) (simp_all add: py_slice_to_def drop_rev)
  have e: "MemorySearchTool_execute U enum fs query top_k
      = Inr (JObj [(''results'', JArr ?results), (''count'', JInt (int (length ?results)))])"
    using search_plain [OF en pl nb, of top_k] unfolding k by (simp add: search_result_def)
  show "\<exists>ids kept results.
               distinct ids \<and>
               set ids = spec_matching (index_of fs) (lower U query) \<and>
               kept = (case top_k of
                         None \<Rightarrow> take 5 ids
                       | Some n \<Rightarrow> if 0 \<le> n then take (nat n) ids
                                  else rev (drop (nat (- n)) (rev ids))) \<and>
               results = List.map_filter
                 (\<lambda>mid. map_option
                    (\<lambda>it. JObj [(''id'', JStr (item_id it)), (''content'', JStr (content it)),
                                (''keywords'', JArr (map JStr (item_keywords it)))])
                    (items fs mid)) kept \<and>
               MemorySearchTool_execute U enum fs query top_k
                 = Inr (JObj [(''results'', JArr results),
                              (''count'', JInt (int (length results)))])"
    using d s e by blast
qed

lemma plain_index_example_store: "plain_index example_store"
  by (simp add: plain_index_def index_of_def example_store_def)

lemma search_example:
  "MemorySearchTool_execute latin1 id example_store ''A'' None
     = Inr (JObj [(''results'',
                   JArr [JObj [(''id'', JStr ''mem_aaaaaaaaaaaa''), (''content'', JStr ''x''),
                               (''keywords'', JArr [JStr ''a b''])],
                         JObj [(''id'', JStr ''mem_bbbbbbbbbbbb''), (''content'', JStr ''y''),
                               (''keywords'', JArr [JStr ''a b''])]]),
                  (''count'', JInt 2)])"
  by (simp add: MemorySearchTool_execute_def example_store_def example_item_def
      matching_ids_def str_strip_def latin1_def latin1_isspace_def latin1_lower_char_def
      char_of_def bit_iff_odd set_add_def py_slice_to_def load_item_def read_item_path_def
      item_json_def search_hit_def py_subscript_def dict_get_default_def search_result_def
      Let_def)

theorem search_spec_witness:
  "is_enumeration (id :: string list \<Rightarrow> string list) \<and> plain_index example_store \<and>
   \<not> (\<forall>c \<in> set ''A''. isspace latin1 c) \<and>
   (\<exists>ids kept results.
       distinct ids \<and>
       set ids = spec_matching (index_of example_store) (lower latin1 ''A'') \<and>
       kept = take 5 ids \<and>
       results = List.map_filter
         (\<lambda>mid. map_option
            (\<lambda>it. JObj [(''id'', JStr (item_id it)), (''content'', JStr (content it)),
                        (''keywords'', JArr (map JStr (item_keywords it)))])
            (items example_store mid)) kept \<and>
       MemorySearchTool_execute latin1 id example_store ''A'' None
         = Inr (JObj [(''results'', JArr results), (''count'', JInt (int (length results)))])) \<and>
   MemorySearchTool_execute latin1 id example_store ([CHR 0xA0]) None
     = Inr (JObj [(''results'', JArr []), (''count'', JInt 0)])"
proof -
  have nb: "\<not> (\<forall>c \<in> set ''A''. isspace latin1 c)"
    by (simp add: latin1_def latin1_isspace_def)
  have bl: "\<forall>c \<in> set [CHR 0xA0]. isspace latin1 c"
    by (simp add: latin1_def latin1_isspace_def)
  have h: "is_enumeration (id :: string list \<Rightarrow> string list) \<and> plain_index example_store \<and>
      \<not> (\<forall>c \<in> set ''A''. isspace latin1 c)"
    using nb is_enumeration_id plain_index_example_store by blast
  note a = search_spec [of "''A''" latin1 id example_store None, THEN conjunct2, THEN mp, OF h]
  note b = search_spec [of "[CHR 0xA0]" latin1 id example_store None, THEN conjunct1,
      THEN mp, OF bl]
  show ?thesis using a b h by simp
qed

text \<open>
  The claim as first stated, for every index state, fails on an index that lists the name
  \<open>../index/keyword\<close>: no record has that identifier, yet the name is not skipped. Its
  item path is the index file, which is loaded as if it were a record, and the search
  raises \<^verbatim>\<open>KeyError\<close>.
\<close>

theorem search_index_state_counterexample:
  "items odd_store ''../index/keyword'' = None \<and>
   read_item_path odd_store ''../index/keyword''
     = Some (Inr (JObj [(''a b'', JArr [JStr ''mem_aaaaaaaaaaaa'', JStr ''../index/keyword''])])) \<and>
   MemorySearchTool_execute latin1 id odd_store ''a'' None = Inl (KeyError (quoted ''id''))"
  by (simp add: MemorySearchTool_execute_def odd_store_def example_store_def example_item_def
      matching_ids_def str_strip_def latin1_def latin1_isspace_def latin1_lower_char_def
      set_add_def py_slice_to_def load_item_def read_item_path_def index_json_def
      item_json_def search_hit_def py_subscript_def dict_get_default_def Let_def)

section \<open>Negative and zero \<open>top_k\<close>\<close>

text \<open>
  Claim C10, as amended. For every index state and every query, \<^verbatim>\<open>memory.search\<close>
  with \<open>top_k = 0\<close> returns no results and count 0. With a negative \<open>top_k\<close>, a query
  that is not empty or whitespace-only and an index whose identifiers have no path
  separator, it returns the results for all but the last \<open>|top_k|\<close> matching
  identifiers, as a list slice does: the value is neither rejected nor taken as
  unlimited. A query of whitespace only returns no results for every \<open>top_k\<close>.
\<close>

theorem search_top_k_slice:
  "MemorySearchTool_execute U enum fs query (Some 0)
     = Inr (JObj [(''results'', JArr []), (''count'', JInt 0)]) \<and>
   (is_enumeration enum \<and> plain_index fs \<and> k < 0 \<and> \<not> (\<forall>c \<in> set query. isspace U c) \<longrightarrow>
      (\<exists>ids results.
         distinct ids \<and>
         set ids = spec_matching (index_of fs) (lower U query) \<and>
         results = List.map_filter
           (\<lambda>mid. map_option
              (\<lambda>it. JObj [(''id'', JStr (item_id it)), (''content'', JStr (content it)),
                          (''keywords'', JArr (map JStr (item_keywords it)))])
              (items fs mid))
           (rev (drop (nat (- k)) (rev ids))) \<and>
         MemorySearchTool_execute U enum fs query (Some k)
           = Inr (JObj [(''results'', JArr results),
                        (''count'', JInt (int (length results)))]))) \<and>
   ((\<forall>c \<in> set query. isspace U c) \<longrightarrow>
      (\<forall>top_k. MemorySearchTool_execute U enum fs query top_k
         = Inr (JObj [(''results'', JArr []), (''count'', JInt 0)])))"
proof (intro conjI impI allI)
  show "MemorySearchTool_execute U enum fs query (Some 0)
           = Inr (JObj [(''results'', JArr []), (''count'', JInt 0)])"
  proof (cases "\<forall>c \<in> set query. isspace U c")
    case True
    then show ?thesis by (rule search_blank)
  next
    case False
    show ?thesis using search_not_blank [OF False, of enum fs "Some 0"]
      by (simp add: py_slice_to_def search_result_def)
  qed
next
  assume a: "is_enumeration enum \<and> plain_index fs \<and> k < 0 \<and>
             \<not> (\<forall>c \<in> set query. isspace U c)"
  then have en: "is_enumeration enum" and pl: "plain_index fs" and kn: "k < 0"
    and nb: "\<not> (\<forall>c \<in> set query. isspace U c)" by simp_all
  let ?ids = "enum (matching_ids (index_of fs) (lower U query))"
  let ?results = "List.map_filter
           (\<lambda>mid. map_option
              (\<lambda>it. JObj [(''id'', JStr (item_id it)), (''content'', JStr (content it)),
                          (''keywords'', JArr (map JStr (item_keywords it)))])
              (items fs mid))
           (rev (drop (nat (- k)) (rev ?ids)))"
  have d: "distinct ?ids"
    by (simp add: is_enumeration_distinct [OF en] distinct_matching_ids)
  have s: "set ?ids = spec_matching (index_of fs) (lower U query)"
    by (simp add: is_enumeration_set [OF en] set_matching_ids)
  have e: "MemorySearchTool_execute U enum fs query (Some k)
      = Inr (JObj [(''results'', JArr ?results), (''count'', JInt (int (length ?results)))])"
    using search_plain [OF en pl nb, of "Some k"]
    by (simp add: search_result_def py_slice_to_neg [OF kn])
  show "\<exists>ids results.
         distinct ids \<and>
         set ids = spec_matching (index_of fs) (lower U query) \<and>
         results = List.map_filter
           (\<lambda>mid. map_option
              (\<lambda>it. JObj [(''id'', JStr (item_id it)), (''content'', JStr (content it)),
                          (''keywords'', JArr (map JStr (item_keywords it)))])
              (items fs mid))
           (rev (drop (nat (- k)) (rev ids))) \<and>
         MemorySearchTool_execute U enum fs query (Some k)
           = Inr (JObj [(''results'', JArr results),
                        (''count'', JInt (int (length results)))])"
    using d s e by blast
next
  fix top_k
  assume "\<forall>c \<in> set query. isspace U c"
  then show "MemorySearchTool_execute U enum fs query top_k
              = Inr (JObj [(''results'', JArr []), (''count'', JInt 0)])"
    by (rule search_blank)
qed

lemma search_example_negative:
  "MemorySearchTool_execute latin1 id example_store ''a'' (Some (- 1))
     = Inr (JObj [(''results'',
                   JArr [JObj [(''id'', JStr ''mem_aaaaaaaaaaaa''), (''content'', JStr ''x''),
                               (''keywords'', JArr [JStr ''a b''])]]),
                  (''count'', JInt 1)])"
  by (simp add: MemorySearchTool_execute_def example_store_def example_item_def
      matching_ids_def str_strip_def latin1_def latin1_isspace_def latin1_lower_char_def
      set_add_def py_slice_to_def load_item_def read_item_path_def
      item_json_def search_hit_def py_subscript_def dict_get_default_def search_result_def
      Let_def)

theorem search_top_k_slice_witness:
  "is_enumeration (id :: string list \<Rightarrow> string list) \<and> plain_index example_store \<and>
   (- 1 :: int) < 0 \<and> \<not> (\<forall>c \<in> set ''a''. isspace latin1 c) \<and>
   (\<exists>ids results.
       distinct ids \<and>
       set ids = spec_matching (index_of example_store) (lower latin1 ''a'') \<and>
       results = List.map_filter
         (\<lambda>mid. map_option
            (\<lambda>it. JObj [(''id'', JStr (item_id it)), (''content'', JStr (content it)),
                        (''keywords'', JArr (map JStr (item_keywords it)))])
            (items example_store mid))
         (rev (drop (nat (- (- 1))) (rev ids))) \<and>
       MemorySearchTool_execute latin1 id example_store ''a'' (Some (- 1))
         = Inr (JObj [(''results'', JArr results), (''count'', JInt (int (length results)))])) \<and>
   MemorySearchTool_execute latin1 id example_store [CHR 0xA0, CHR '' ''] (Some (- 1))
     = Inr (JObj [(''results'', JArr []), (''count'', JInt 0)])"
proof -
  have nb: "\<not> (\<forall>c \<in> set ''a''. isspace latin1 c)"
    by (simp add: latin1_def latin1_isspace_def)
  have bl: "\<forall>c \<in> set [CHR 0xA0, CHR '' '']. isspace latin1 c"
    by (simp add: latin1_def latin1_isspace_def)
  have h: "is_enumeration (id :: string list \<Rightarrow> string list) \<and> plain_index example_store \<and>
      (- 1 :: int) < 0 \<and> \<not> (\<forall>c \<in> set ''a''. isspace latin1 c)"
    using nb is_enumeration_id plain_index_example_store by simp
  note a = search_top_k_slice [of latin1 id example_store "''a''" "- 1",
      THEN conjunct2, THEN conjunct1, THEN mp, OF h]
  note b = search_top_k_slice [of latin1 id example_store "[CHR 0xA0, CHR '' '']" "- 1",
      THEN conjunct2, THEN conjunct2, THEN mp, OF bl, THEN spec, of "Some (- 1)"]
  show ?thesis using a b h by simp
qed

text \<open>
  The claim as first stated, for every non-empty query, fails on a query of one space:
  two identifiers match it in the example store and both records exist, so all but the
  last one would give one result, and the search returns none.
\<close>

theorem search_negative_top_k_counterexample:
  "'' '' \<noteq> [] \<and>
   matching_ids (index_of example_store) (lower latin1 '' '')
     = [''mem_aaaaaaaaaaaa'', ''mem_bbbbbbbbbbbb''] \<and>
   items example_store ''mem_aaaaaaaaaaaa'' \<noteq> None \<and>
   items example_store ''mem_bbbbbbbbbbbb'' \<noteq> None \<and>
   MemorySearchTool_execute latin1 id example_store '' '' (Some (- 1))
     = Inr (JObj [(''results'', JArr []), (''count'', JInt 0)]) \<and>
   MemorySearchTool_execute latin1 id example_store '' '' (Some (- 1))
     \<noteq> Inr (JObj [(''results'',
                    JArr [JObj [(''id'', JStr ''mem_aaaaaaaaaaaa''), (''content'', JStr ''x''),
                                (''keywords'', JArr [JStr ''a b''])]]),
                   (''count'', JInt 1)])"
  by (simp add: MemorySearchTool_execute_def example_store_def matching_ids_def index_of_def
      str_strip_def latin1_def latin1_isspace_def latin1_lower_char_def set_add_def
      search_result_def)

section \<open>Fetching a record\<close>

text \<open>
  Claim C5, as amended. For every non-empty \<open>memory_id\<close> without a path separator,
  \<^verbatim>\<open>memory.get\<close> returns the record when one with that identifier is persisted and a
  null memory when none is; it never raises for such an identifier that does not exist,
  and among the identifiers without a path separator it fails exactly for the empty one.
  It fails when \<open>memory_id\<close> is absent.
\<close>

theorem MemoryGetTool_execute_spec:
  "(\<forall>mid it. mid \<noteq> [] \<and> CHR ''/'' \<notin> set mid \<and> items fs mid = Some it \<longrightarrow>
       MemoryGetTool_execute fs (Some mid)
         = Inr (JObj [(''memory'',
                  JObj [(''id'', JStr (item_id it)),
                        (''created_at'', JStr (created_at it)),
                        (''updated_at'', JStr (updated_at it)),
                        (''content'', JStr (content it)),
                        (''keywords'', JArr (map JStr (item_keywords it)))])])) \<and>
   (\<forall>mid. mid \<noteq> [] \<and> CHR ''/'' \<notin> set mid \<and> items fs mid = None \<longrightarrow>
       MemoryGetTool_execute fs (Some mid) = Inr (JObj [(''memory'', JNull)])) \<and>
   (\<forall>mid. CHR ''/'' \<notin> set mid \<longrightarrow>
       (isl (MemoryGetTool_execute fs (Some mid)) \<longleftrightarrow> mid = [])) \<and>
   MemoryGetTool_execute fs (Some []) = Inl (ValueError ''memory_id is required'') \<and>
   isl (MemoryGetTool_execute fs None)"
proof -
  have g: "MemoryGetTool_execute fs (Some mid) =
      (if mid = [] then Inl (ValueError ''memory_id is required'')
       else case items fs mid of
              None \<Rightarrow> Inr (JObj [(''memory'', JNull)])
            | Some it \<Rightarrow> Inr (JObj [(''memory'', item_json it)]))"
    if "CHR ''/'' \<notin> set mid" for mid
    by (simp add: MemoryGetTool_execute_def read_item_path_plain [OF that] split: option.splits)
  have c1: "\<forall>mid it. mid \<noteq> [] \<and> CHR ''/'' \<notin> set mid \<and> items fs mid = Some it \<longrightarrow>
       MemoryGetTool_execute fs (Some mid)
         = Inr (JObj [(''memory'',
                  JObj [(''id'', JStr (item_id it)),
                        (''created_at'', JStr (created_at it)),
                        (''updated_at'', JStr (updated_at it)),
                        (''content'', JStr (content it)),
                        (''keywords'', JArr (map JStr (item_keywords it)))])])"
    by (simp add: g item_json_def)
  have c2: "\<forall>mid. mid \<noteq> [] \<and> CHR ''/'' \<notin> set mid \<and> items fs mid = None \<longrightarrow>
       MemoryGetTool_execute fs (Some mid) = Inr (JObj [(''memory'', JNull)])"
    by (simp add: g)
  have c3: "\<forall>mid. CHR ''/'' \<notin> set mid \<longrightarrow>
       (isl (MemoryGetTool_execute fs (Some mid)) \<longleftrightarrow> mid = [])"
    by (simp add: g split: option.splits)
  have c4: "MemoryGetTool_execute fs (Some []) = Inl (ValueError ''memory_id is required'')"
    by (simp add: MemoryGetTool_execute_def)
  have c5: "isl (MemoryGetTool_execute fs None)"
    by (simp add: MemoryGetTool_execute_def)
  from c1 c2 c3 c4 c5 show ?thesis by blast
qed

theorem MemoryGetTool_execute_spec_witness:
  "MemoryGetTool_execute example_store (Some ''mem_aaaaaaaaaaaa'')
     = Inr (JObj [(''memory'',
              JObj [(''id'', JStr ''mem_aaaaaaaaaaaa''),
                    (''created_at'', JStr ''2024-01-01T00:00:00Z''),
                    (''updated_at'', JStr ''2024-01-01T00:00:00Z''),
                    (''content'', JStr ''x''),
                    (''keywords'', JArr [JStr ''a b''])])]) \<and>
   MemoryGetTool_execute example_store (Some ''mem_nonexistent'')
     = Inr (JObj [(''memory'', JNull)]) \<and>
   isl (MemoryGetTool_execute example_store (Some [])) \<and>
   isl (MemoryGetTool_execute example_store None)"
proof -
  note t = MemoryGetTool_execute_spec [of example_store]
  have a: "''mem_aaaaaaaaaaaa'' \<noteq> [] \<and> CHR ''/'' \<notin> set ''mem_aaaaaaaaaaaa'' \<and>
      items example_store ''mem_aaaaaaaaaaaa'' = Some (example_item ''mem_aaaaaaaaaaaa'' ''x'')"
    by (simp add: example_store_def)
  have b: "''mem_nonexistent'' \<noteq> [] \<and> CHR ''/'' \<notin> set ''mem_nonexistent'' \<and>
      items example_store ''mem_nonexistent'' = None"
    by (simp add: example_store_def)
  note t1 = t [THEN conjunct1, THEN spec, THEN spec, THEN mp, OF a]
  note t2 = t [THEN conjunct2, THEN conjunct1, THEN spec, THEN mp, OF b]
  note t4 = t [THEN conjunct2, THEN conjunct2, THEN conjunct2]
  show ?thesis using t1 t2 t4 by (simp add: example_item_def)
qed

text \<open>
  The claim as first stated, for every non-empty \<open>memory_id\<close>, fails on the name
  \<open>../index/keyword\<close>: no record with that identifier is persisted, and the tool returns
  the keyword index as the memory instead of null.
\<close>

theorem MemoryGetTool_path_counterexample:
  "''../index/keyword'' \<noteq> [] \<and>
   items example_store ''../index/keyword'' = None \<and>
   MemoryGetTool_execute example_store (Some ''../index/keyword'')
     = Inr (JObj [(''memory'',
              JObj [(''a b'', JArr [JStr ''mem_aaaaaaaaaaaa'', JStr ''mem_bbbbbbbbbbbb''])])]) \<and>
   MemoryGetTool_execute example_store (Some ''../index/keyword'')
     \<noteq> Inr (JObj [(''memory'', JNull)])"
  by (simp add: MemoryGetTool_execute_def read_item_path_def example_store_def index_json_def)

section \<open>Writing and reading back\<close>

lemma generate_memory_id_a: "generate_memory_id (\<lambda>i. 0) = ''mem_aaaaaaaaaaaa''"
  by code_simp

lemma generate_memory_id_b: "generate_memory_id (\<lambda>i. Suc 0) = ''mem_bbbbbbbbbbbb''"
  by code_simp

lemma generate_memory_id_c: "generate_memory_id (\<lambda>i. 2) = ''mem_cccccccccccc''"
  by code_simp

lemma example_store_written:
  "example_store =
     snd (MemoryWriteTool_execute latin1 id (\<lambda>i. 1) ''2024-01-01T00:00:00''
       (snd (MemoryWriteTool_execute latin1 id (\<lambda>i. 0) ''2024-01-01T00:00:00'' empty_store
               ''x'' (Some [''a b''])))
       ''y'' (Some [''a b'']))"
  by (simp add: example_store_def example_item_def MemoryWriteTool_execute_def empty_store_def
      generate_memory_id_a generate_memory_id_b update_keyword_index_def extract_keywords_def
      str_split_def latin1_def latin1_lower_char_def latin1_isspace_def latin1_isalnum_def
      set_add_def index_add_def index_lookup_def Let_def)

lemma items_update_keyword_index: "items (update_keyword_index U enum fs it) = items fs"
  by (simp add: update_keyword_index_def Let_def)

text \<open>
  Claim C6. For every non-empty content and every list of tags, \<^verbatim>\<open>memory.write\<close>
  followed by \<^verbatim>\<open>memory.get\<close> on the identifier that the write returned yields a record
  whose content is the content written and whose keywords are the tags written.
\<close>

theorem write_then_get:
  assumes "content_arg \<noteq> []"
  shows "\<exists>mid fs'.
     MemoryWriteTool_execute U enum draw utcnow fs content_arg (Some tags)
       = (Inr (JObj [(''memory_id'', JStr mid), (''success'', JBool True)]), fs') \<and>
     MemoryGetTool_execute fs' (Some mid)
       = Inr (JObj [(''memory'',
                JObj [(''id'', JStr mid),
                      (''created_at'', JStr (utcnow @ ''Z'')),
                      (''updated_at'', JStr (utcnow @ ''Z'')),
                      (''content'', JStr content_arg),
                      (''keywords'', JArr (map JStr tags))])])"
proof -
  let ?mid = "generate_memory_id draw"
  let ?it = "\<lparr>item_id = ?mid, created_at = utcnow @ ''Z'', updated_at = utcnow @ ''Z'',
              content = content_arg, item_keywords = tags\<rparr>"
  let ?fs' = "update_keyword_index U enum (fs\<lparr>items := (items fs)(?mid \<mapsto> ?it)\<rparr>) ?it"
  have w: "MemoryWriteTool_execute U enum draw utcnow fs content_arg (Some tags)
       = (Inr (JObj [(''memory_id'', JStr ?mid), (''success'', JBool True)]), ?fs')"
    using assms by (simp add: MemoryWriteTool_execute_def Let_def)
  have g: "MemoryGetTool_execute ?fs' (Some ?mid)
       = Inr (JObj [(''memory'',
                JObj [(''id'', JStr ?mid),
                      (''created_at'', JStr (utcnow @ ''Z'')),
                      (''updated_at'', JStr (utcnow @ ''Z'')),
                      (''content'', JStr content_arg),
                      (''keywords'', JArr (map JStr tags))])])"
    by (simp add: MemoryGetTool_execute_def read_item_path_plain [OF generate_memory_id_plain]
        items_update_keyword_index generate_memory_id_nonempty item_json_def)
  from w g show ?thesis by blast
qed

theorem write_then_get_witness:
  "''Hello world'' \<noteq> [] \<and>
   (\<exists>mid fs'.
      MemoryWriteTool_execute latin1 id (\<lambda>i. 2) ''2024-01-01T00:00:00'' example_store
          ''Hello world'' (Some [''greeting''])
        = (Inr (JObj [(''memory_id'', JStr mid), (''success'', JBool True)]), fs') \<and>
      MemoryGetTool_execute fs' (Some mid)
        = Inr (JObj [(''memory'',
                 JObj [(''id'', JStr mid),
                       (''created_at'', JStr (''2024-01-01T00:00:00'' @ ''Z'')),
                       (''updated_at'', JStr (''2024-01-01T00:00:00'' @ ''Z'')),
                       (''content'', JStr ''Hello world''),
                       (''keywords'', JArr (map JStr [''greeting'']))])]))"
  using write_then_get [of "''Hello world''" latin1 id "\<lambda>i. 2" "''2024-01-01T00:00:00''"
      example_store "[''greeting'']"]
  by simp

section \<open>The invariant of the index\<close>

lemma set_dict_set: "set (dict_set d k v) \<subseteq> insert (k, v) (set d)"
  by (induction d) (auto split: if_splits)

lemma good_dict_set:
  "index_good S ix \<Longrightarrow> distinct ids \<Longrightarrow> set ids \<subseteq> S \<Longrightarrow> index_good S (dict_set ix k ids)"
  unfolding index_good_def using set_dict_set [of ix k ids] by auto

lemma good_index_lookup:
  "index_good S ix \<Longrightarrow> distinct (index_lookup ix k) \<and> set (index_lookup ix k) \<subseteq> S"
  unfolding index_good_def index_lookup_def
  by (auto split: option.splits dest!: map_of_SomeD)

lemma good_index_add:
  assumes "index_good S ix" "mid \<in> S"
  shows "index_good S (index_add mid k ix)"
proof -
  let ?ix1 = "if map_of ix k = None then dict_set ix k [] else ix"
  have g1: "index_good S ?ix1" using assms(1) by (simp add: good_dict_set)
  have l: "distinct (index_lookup ?ix1 k) \<and> set (index_lookup ?ix1 k) \<subseteq> S"
    using good_index_lookup [OF g1] .
  have "index_good S (dict_set ?ix1 k (index_lookup ?ix1 k @ [mid]))"
    if "mid \<notin> set (index_lookup ?ix1 k)"
    using that l assms(2) by (intro good_dict_set [OF g1]) auto
  then show ?thesis
    using g1 unfolding index_add_def Let_def by (simp only: if_split) blast
qed

lemma good_fold_index_add:
  "index_good S ix \<Longrightarrow> mid \<in> S \<Longrightarrow> index_good S (fold (index_add mid) kws ix)"
  by (induction kws arbitrary: ix) (auto simp: good_index_add)

lemma good_mono: "index_good S ix \<Longrightarrow> S \<subseteq> T \<Longrightarrow> index_good T ix"
  unfolding index_good_def by fastforce

lemma index_inv_good: "index_inv fs = index_good (dom (items fs)) (index_of fs)"
  unfolding index_inv_def index_good_def by (auto simp: dom_def)

lemma index_inv_empty_store: "index_inv empty_store"
  by (simp add: index_inv_def index_of_def empty_store_def)

text \<open>
  Claim C7. Every \<^verbatim>\<open>memory.write\<close> preserves the invariant of the index: after the
  write, every identifier listed under a keyword of the persisted index has its record in
  the store, and no keyword lists an identifier twice. The record is stored before the
  index is updated, and no record is removed.
\<close>

theorem write_preserves_index_inv:
  assumes "index_inv fs"
  shows "index_inv (snd (MemoryWriteTool_execute U enum draw utcnow fs content_arg tags)) \<and>
         (\<forall>mid. items fs mid \<noteq> None \<longrightarrow>
            items (snd (MemoryWriteTool_execute U enum draw utcnow fs content_arg tags)) mid
              \<noteq> None)"
proof (cases "content_arg = []")
  case True
  then show ?thesis using assms by (simp add: MemoryWriteTool_execute_def)
next
  case False
  let ?mid = "generate_memory_id draw"
  let ?it = "\<lparr>item_id = ?mid, created_at = utcnow @ ''Z'', updated_at = utcnow @ ''Z'',
              content = content_arg,
              item_keywords = (case tags of None \<Rightarrow> [] | Some ts \<Rightarrow> ts)\<rparr>"
  let ?fs1 = "fs\<lparr>items := (items fs)(?mid \<mapsto> ?it)\<rparr>"
  let ?fs2 = "update_keyword_index U enum ?fs1 ?it"
  have e: "snd (MemoryWriteTool_execute U enum draw utcnow fs content_arg tags) = ?fs2"
    using False by (simp add: MemoryWriteTool_execute_def Let_def)
  have "index_good (dom (items fs)) (index_of fs)" using assms by (simp add: index_inv_good)
  then have "index_good (dom (items ?fs1)) (index_of fs)"
    by (rule good_mono) auto
  then have "index_good (dom (items ?fs1))
      (fold (index_add ?mid) (extract_keywords U enum ?it) (index_of fs))"
    by (rule good_fold_index_add) simp
  then have "index_inv ?fs2"
    by (simp add: index_inv_good items_update_keyword_index)
       (simp add: update_keyword_index_def index_of_def Let_def)
  moreover have "\<forall>mid. items fs mid \<noteq> None \<longrightarrow> items ?fs2 mid \<noteq> None"
    by (simp add: items_update_keyword_index)
  ultimately show ?thesis unfolding e by blast
qed

lemma index_inv_example_store: "index_inv example_store"
  by (simp add: index_inv_def index_of_def example_store_def)

theorem write_preserves_index_inv_witness:
  "index_inv example_store \<and>
   index_inv (snd (MemoryWriteTool_execute latin1 id (\<lambda>i. 2) ''2024-01-01T00:00:00''
                     example_store ''Hello world'' (Some [''greeting'']))) \<and>
   items example_store ''mem_bbbbbbbbbbbb'' \<noteq> None \<and>
   items (snd (MemoryWriteTool_execute latin1 id (\<lambda>i. 2) ''2024-01-01T00:00:00''
                  example_store ''Hello world'' (Some [''greeting''])))
     ''mem_bbbbbbbbbbbb'' \<noteq> None"
proof -
  have b: "items example_store ''mem_bbbbbbbbbbbb'' \<noteq> None"
    by (simp add: example_store_def)
  show ?thesis
    using write_preserves_index_inv [OF index_inv_example_store, of latin1 id "\<lambda>i. 2"
        "''2024-01-01T00:00:00''" "''Hello world''" "Some [''greeting'']"] b
    by (simp add: index_inv_example_store)
qed

text \<open>
  A write lists only the identifier it has generated, which has no slash: the indexes
  that writes leave are those the search theorems are about.
\<close>

lemma in_dict_set: "(k', v) \<in> set (dict_set d k v0) \<Longrightarrow> v = v0 \<or> (k', v) \<in> set d"
  using set_dict_set [of d k v0] by auto

lemma ids_index_lookup: "set (index_lookup ix k) \<subseteq> \<Union> (set ` snd ` set ix)"
proof (cases "map_of ix k")
  case None
  then show ?thesis by (simp add: index_lookup_def)
next
  case (Some ids)
  then have "(k, ids) \<in> set ix" by (rule map_of_SomeD)
  then have "set ids \<subseteq> \<Union> (set ` snd ` set ix)" by force
  then show ?thesis using Some by (simp add: index_lookup_def)
qed

lemma ids_index_add:
  assumes "(k', ids) \<in> set (index_add mid k ix)"
  shows "set ids \<subseteq> insert mid (\<Union> (set ` snd ` set ix))"
proof -
  let ?ix1 = "if map_of ix k = None then dict_set ix k [] else ix"
  have one: "set v \<subseteq> \<Union> (set ` snd ` set ix)" if "(k'', v) \<in> set ?ix1" for k'' v
  proof (cases "map_of ix k = None")
    case True
    then have "v = [] \<or> (k'', v) \<in> set ix" using that in_dict_set [of k'' v ix k "[]"] by simp
    then show ?thesis by force
  next
    case False
    then have "(k'', v) \<in> set ix" using that by auto
    then show ?thesis by force
  qed
  have l: "set (index_lookup ?ix1 k) \<subseteq> \<Union> (set ` snd ` set ix)"
  proof (cases "map_of ?ix1 k")
    case None
    then show ?thesis by (simp add: index_lookup_def)
  next
    case (Some v)
    then have "(k, v) \<in> set ?ix1" by (rule map_of_SomeD)
    then show ?thesis using one Some by (simp add: index_lookup_def)
  qed
  show ?thesis
  proof (cases "mid \<in> set (index_lookup ?ix1 k)")
    case True
    then have "index_add mid k ix = ?ix1" by (simp add: index_add_def Let_def)
    then show ?thesis using assms one by auto
  next
    case False
    then have "index_add mid k ix = dict_set ?ix1 k (index_lookup ?ix1 k @ [mid])"
      by (simp add: index_add_def Let_def)
    then have "ids = index_lookup ?ix1 k @ [mid] \<or> (k', ids) \<in> set ?ix1"
      using assms in_dict_set [of k' ids ?ix1 k "index_lookup ?ix1 k @ [mid]"] by simp
    then show ?thesis using l one by auto
  qed
qed

lemma ids_fold_index_add:
  "(k', ids) \<in> set (fold (index_add mid) kws ix) \<Longrightarrow>
   set ids \<subseteq> insert mid (\<Union> (set ` snd ` set ix))"
proof (induction kws arbitrary: ix)
  case Nil
  then show ?case by force
next
  case (Cons k kws)
  then have "set ids \<subseteq> insert mid (\<Union> (set ` snd ` set (index_add mid k ix)))" by simp
  moreover have "\<Union> (set ` snd ` set (index_add mid k ix)) \<subseteq> insert mid (\<Union> (set ` snd ` set ix))"
  proof
    fix x assume "x \<in> \<Union> (set ` snd ` set (index_add mid k ix))"
    then obtain a b where ab: "(a, b) \<in> set (index_add mid k ix)" "x \<in> set b" by force
    then show "x \<in> insert mid (\<Union> (set ` snd ` set ix))"
      using ids_index_add [OF ab(1)] by blast
  qed
  ultimately show ?case by blast
qed

lemma plain_fold_index_add:
  assumes "\<forall>(keyword, ids) \<in> set ix. \<forall>m \<in> set ids. CHR ''/'' \<notin> set m" "CHR ''/'' \<notin> set mid"
  shows "\<forall>(keyword, ids) \<in> set (fold (index_add mid) kws ix). \<forall>m \<in> set ids. CHR ''/'' \<notin> set m"
proof -
  have "CHR ''/'' \<notin> set m"
    if "(k', ids) \<in> set (fold (index_add mid) kws ix)" "m \<in> set ids" for k' ids m
  proof -
    have "m = mid \<or> m \<in> \<Union> (set ` snd ` set ix)"
      using ids_fold_index_add [OF that(1)] that(2) by auto
    then show ?thesis using assms by force
  qed
  then show ?thesis by auto
qed

lemma plain_index_empty_store: "plain_index empty_store"
  by (simp add: plain_index_def index_of_def empty_store_def)

lemma write_preserves_plain_index:
  assumes "plain_index fs"
  shows "plain_index (snd (MemoryWriteTool_execute U enum draw utcnow fs content_arg tags))"
proof (cases "content_arg = []")
  case True
  then show ?thesis using assms by (simp add: MemoryWriteTool_execute_def)
next
  case False
  let ?mid = "generate_memory_id draw"
  let ?it = "\<lparr>item_id = ?mid, created_at = utcnow @ ''Z'', updated_at = utcnow @ ''Z'',
              content = content_arg,
              item_keywords = (case tags of None \<Rightarrow> [] | Some ts \<Rightarrow> ts)\<rparr>"
  let ?fs1 = "fs\<lparr>items := (items fs)(?mid \<mapsto> ?it)\<rparr>"
  have e: "snd (MemoryWriteTool_execute U enum draw utcnow fs content_arg tags)
      = update_keyword_index U enum ?fs1 ?it"
    using False by (simp add: MemoryWriteTool_execute_def Let_def)
  have "\<forall>(keyword, ids) \<in> set (index_of fs). \<forall>m \<in> set ids. CHR ''/'' \<notin> set m"
    using assms by (simp add: plain_index_def)
  then have "\<forall>(keyword, ids) \<in> set (fold (index_add ?mid) (extract_keywords U enum ?it)
      (index_of fs)). \<forall>m \<in> set ids. CHR ''/'' \<notin> set m"
    using generate_memory_id_plain by (rule plain_fold_index_add)
  then show ?thesis unfolding e
    by (simp add: plain_index_def update_keyword_index_def index_of_def Let_def)
qed

section \<open>The dispatcher\<close>



text \<open>
  Claim C9. \<^verbatim>\<open>initialize\<close> never fails and is idempotent: from every dispatcher state,
  a first and a second call both leave \<open>initialized\<close> true and return the same result,
  which holds the protocol version, a capability object and the server identity.
\<close>

theorem initialize_idempotent:
  assumes "dict_get request ''method'' = JStr ''initialize''"
    and "dict_get request' ''method'' = JStr ''initialize''"
  shows "handle_request L p w request
           = (JObj [(''jsonrpc'', JStr ''2.0''), (''id'', dict_get request ''id''),
                    (''result'',
                     JObj [(''protocolVersion'', JStr ''2024-11-05''),
                           (''capabilities'', JObj [(''tools'', JObj [])]),
                           (''serverInfo'', JObj [(''name'', JStr ''mcp-server''),
                                                  (''version'', JStr ''0.1.0'')])])],
              p\<lparr>initialized := True\<rparr>, w) \<and>
         handle_request L (p\<lparr>initialized := True\<rparr>) w request'
           = (JObj [(''jsonrpc'', JStr ''2.0''), (''id'', dict_get request' ''id''),
                    (''result'',
                     JObj [(''protocolVersion'', JStr ''2024-11-05''),
                           (''capabilities'', JObj [(''tools'', JObj [])]),
                           (''serverInfo'', JObj [(''name'', JStr ''mcp-server''),
                                                  (''version'', JStr ''0.1.0'')])])],
              p\<lparr>initialized := True\<rparr>, w) \<and>
         initialized (p\<lparr>initialized := True\<rparr>) \<and>
         handle_initialize p params
           = (JObj [(''protocolVersion'', JStr ''2024-11-05''),
                    (''capabilities'', JObj [(''tools'', JObj [])]),
                    (''serverInfo'', JObj [(''name'', JStr ''mcp-server''),
                                           (''version'', JStr ''0.1.0'')])],
              p\<lparr>initialized := True\<rparr>) \<and>
         handle_initialize (p\<lparr>initialized := True\<rparr>) params'
           = (JObj [(''protocolVersion'', JStr ''2024-11-05''),
                    (''capabilities'', JObj [(''tools'', JObj [])]),
                    (''serverInfo'', JObj [(''name'', JStr ''mcp-server''),
                                           (''version'', JStr ''0.1.0'')])],
              p\<lparr>initialized := True\<rparr>)"
  using assms
  by (simp add: handle_request_def route_def handle_initialize_def make_response_def Let_def)

theorem initialize_idempotent_witness:
  "dict_get [(''id'', JInt 1), (''method'', JStr ''initialize'')] ''method''
     = JStr ''initialize'' \<and>
   dict_get [(''method'', JStr ''initialize''), (''params'', JNull)] ''method''
     = JStr ''initialize'' \<and>
   handle_request example_lib example_protocol ()
       [(''id'', JInt 1), (''method'', JStr ''initialize'')]
     = (JObj [(''jsonrpc'', JStr ''2.0''), (''id'', JInt 1),
              (''result'',
               JObj [(''protocolVersion'', JStr ''2024-11-05''),
                     (''capabilities'', JObj [(''tools'', JObj [])]),
                     (''serverInfo'', JObj [(''name'', JStr ''mcp-server''),
                                            (''version'', JStr ''0.1.0'')])])],
        example_protocol\<lparr>initialized := True\<rparr>, ()) \<and>
   handle_request example_lib (example_protocol\<lparr>initialized := True\<rparr>) ()
       [(''method'', JStr ''initialize''), (''params'', JNull)]
     = (JObj [(''jsonrpc'', JStr ''2.0''), (''id'', JNull),
              (''result'',
               JObj [(''protocolVersion'', JStr ''2024-11-05''),
                     (''capabilities'', JObj [(''tools'', JObj [])]),
                     (''serverInfo'', JObj [(''name'', JStr ''mcp-server''),
                                            (''version'', JStr ''0.1.0'')])])],
        example_protocol\<lparr>initialized := True\<rparr>, ())"
proof -
  have a: "dict_get [(''id'', JInt 1), (''method'', JStr ''initialize'')] ''method''
     = JStr ''initialize''"
    by (simp add: dict_get_def dict_get_default_def)
  have b: "dict_get [(''method'', JStr ''initialize''), (''params'', JNull)] ''method''
     = JStr ''initialize''"
    by (simp add: dict_get_def dict_get_default_def)
  show ?thesis
    using initialize_idempotent [OF a b, of example_lib example_protocol "()"] a b
    by (simp add: dict_get_def dict_get_default_def)
qed

section \<open>Calling a tool\<close>

text \<open>
  Claim C3, as amended. A \<^verbatim>\<open>tools/call\<close> request whose parameters are an object
  without a name, or with a name that Python takes as false, signals InvalidParams. A name
  that is a non-empty string (or a number or a boolean) and is not in the registry
  signals MethodNotFound. With a registered name, every failure of the tool's execution,
  a missing required argument and arguments that are not an object included, is signalled
  again as InternalError with the failure's description, and on success the value that
  the tool returns is wrapped as a single text item holding its serialised form. A name
  that is a non-empty array or object makes the lookup raise, and parameters that are not
  an object make the access raise; \<^verbatim>\<open>call_tool\<close> lets both exceptions through.
\<close>

theorem call_tool_spec:
  "(\<not> truthy (dict_get ps ''name'') \<longrightarrow>
      call_tool L p w (JObj ps)
        = (Inl (MCPErr (MCPError INVALID_PARAMS ''Missing tool name'')), w)) \<and>
   (\<forall>n. dict_get ps ''name'' = JStr n \<and> n \<noteq> [] \<and> map_of (tools p) n = None \<longrightarrow>
      call_tool L p w (JObj ps)
        = (Inl (MCPErr (MCPError METHOD_NOT_FOUND (''Tool not found: '' @ n))), w)) \<and>
   (\<forall>n t kwargs e w'.
      dict_get ps ''name'' = JStr n \<and> n \<noteq> [] \<and> map_of (tools p) n = Some t \<and>
      dict_get_default ps ''arguments'' (JObj []) = JObj kwargs \<and>
      execute t kwargs w = (Inl e, w') \<longrightarrow>
      call_tool L p w (JObj ps)
        = (Inl (MCPErr (MCPError INTERNAL_ERROR (str_exc e))), w')) \<and>
   (\<forall>n t kwargs result w'.
      dict_get ps ''name'' = JStr n \<and> n \<noteq> [] \<and> map_of (tools p) n = Some t \<and>
      dict_get_default ps ''arguments'' (JObj []) = JObj kwargs \<and>
      execute t kwargs w = (Inr result, w') \<longrightarrow>
      call_tool L p w (JObj ps)
        = (Inr (JObj [(''content'',
                  JArr [JObj [(''type'', JStr ''text''), (''text'', JStr (dumps L result))]])]),
           w')) \<and>
   (\<forall>n t.
      dict_get ps ''name'' = JStr n \<and> n \<noteq> [] \<and> map_of (tools p) n = Some t \<and>
      (\<forall>kwargs. dict_get_default ps ''arguments'' (JObj []) \<noteq> JObj kwargs) \<longrightarrow>
      call_tool L p w (JObj ps)
        = (Inl (MCPErr (MCPError INTERNAL_ERROR
              (str_exc (not_a_mapping (dict_get_default ps ''arguments'' (JObj [])))))), w)) \<and>
   (truthy (dict_get ps ''name'') \<and>
    ((\<exists>b. dict_get ps ''name'' = JBool b) \<or> (\<exists>i. dict_get ps ''name'' = JInt i)) \<longrightarrow>
      call_tool L p w (JObj ps)
        = (Inl (MCPErr (MCPError METHOD_NOT_FOUND
              (''Tool not found: '' @ repr L (dict_get ps ''name'')))), w)) \<and>
   (truthy (dict_get ps ''name'') \<and>
    ((\<exists>xs. dict_get ps ''name'' = JArr xs) \<or> (\<exists>kvs. dict_get ps ''name'' = JObj kvs)) \<longrightarrow>
      call_tool L p w (JObj ps) = (Inl (PyExc (unhashable (dict_get ps ''name''))), w)) \<and>
   ((\<forall>kvs. params \<noteq> JObj kvs) \<longrightarrow>
      call_tool L p w params = (Inl (PyExc (no_attribute_get params)), w))"
proof (intro conjI allI impI)
  show "call_tool L p w params = (Inl (PyExc (no_attribute_get params)), w)"
    if "\<forall>kvs. params \<noteq> JObj kvs"
    using that by (cases params) (simp_all add: call_tool_def)
next
  fix n t
  assume a: "dict_get ps ''name'' = JStr n \<and> n \<noteq> [] \<and> map_of (tools p) n = Some t \<and>
      (\<forall>kwargs. dict_get_default ps ''arguments'' (JObj []) \<noteq> JObj kwargs)"
  then show "call_tool L p w (JObj ps)
        = (Inl (MCPErr (MCPError INTERNAL_ERROR
              (str_exc (not_a_mapping (dict_get_default ps ''arguments'' (JObj [])))))), w)"
    by (cases "dict_get_default ps ''arguments'' (JObj [])")
       (simp_all add: call_tool_def tools_get_def Let_def)
qed (auto simp: call_tool_def tools_get_def format_value_def text_content_def Let_def)


lemma tools_example_protocol:
  "tools (example_protocol :: unit protocol) = [(''mock.tool'', MockTool), (''failing.tool'', FailingTool)]"
  by (simp add: example_protocol_def register_tool_def new_protocol_def MockTool_def FailingTool_def)

theorem call_tool_spec_witness:
  "call_tool example_lib example_protocol () (JObj [(''arguments'', JObj [])])
     = (Inl (MCPErr (MCPError INVALID_PARAMS ''Missing tool name'')), ()) \<and>
   call_tool example_lib example_protocol () (JObj [(''name'', JStr ''nonexistent'')])
     = (Inl (MCPErr (MCPError METHOD_NOT_FOUND ''Tool not found: nonexistent'')), ()) \<and>
   call_tool example_lib example_protocol () (JObj [(''name'', JStr ''mock.tool'')])
     = (Inl (MCPErr (MCPError INTERNAL_ERROR (str_exc (missing_argument ''value'')))), ()) \<and>
   call_tool example_lib example_protocol () (JObj [(''name'', JStr ''failing.tool'')])
     = (Inl (MCPErr (MCPError INTERNAL_ERROR ''Tool failed'')), ())"
proof -
  have e1: "execute (MockTool :: unit tool) [] () = (Inl (missing_argument ''value''), ())"
    by (simp add: MockTool_def)
  have e2: "execute (FailingTool :: unit tool) [] () = (Inl (ValueError ''Tool failed''), ())"
    by (simp add: FailingTool_def)
  have m1: "map_of (tools (example_protocol :: unit protocol)) ''mock.tool'' = Some MockTool"
    by (simp add: tools_example_protocol)
  have m2: "map_of (tools (example_protocol :: unit protocol)) ''failing.tool'' = Some FailingTool"
    by (simp add: tools_example_protocol)
  have m3: "map_of (tools (example_protocol :: unit protocol)) ''nonexistent'' = None"
    by (simp add: tools_example_protocol)
  show ?thesis
    using call_tool_spec [of "[(''arguments'', JObj [])]" example_lib example_protocol "()"]
      call_tool_spec [of "[(''name'', JStr ''nonexistent'')]" example_lib example_protocol "()"]
      call_tool_spec [of "[(''name'', JStr ''mock.tool'')]" example_lib example_protocol "()"]
      call_tool_spec [of "[(''name'', JStr ''failing.tool'')]" example_lib example_protocol "()"]
      e1 e2 m1 m2 m3
    by (simp add: dict_get_def dict_get_default_def)
qed

text \<open>
  The claim as first stated fails on a name that is an array, and on parameters that are
  null: neither MethodNotFound nor InvalidParams is signalled, and the response of
  \<^verbatim>\<open>handle_request\<close> carries InternalError.
\<close>

theorem call_tool_name_counterexample:
  "truthy (JArr [JStr ''x'']) \<and>
   call_tool example_lib example_protocol () (JObj [(''name'', JArr [JStr ''x''])])
     = (Inl (PyExc (TypeError (''unhashable type: '' @ quoted ''list''))), ()) \<and>
   fst (handle_request example_lib example_protocol ()
          [(''id'', JInt 1), (''method'', JStr ''tools/call''),
           (''params'', JObj [(''name'', JArr [JStr ''x''])])])
     = JObj [(''jsonrpc'', JStr ''2.0''), (''id'', JInt 1),
             (''error'', JObj [(''code'', JInt (- 32603)),
                               (''message'', JStr (''unhashable type: '' @ quoted ''list''))])] \<and>
   call_tool example_lib example_protocol () JNull
     = (Inl (PyExc (AttributeError
          (quoted ''NoneType'' @ '' object has no attribute '' @ quoted ''get''))), ()) \<and>
   fst (call_tool example_lib example_protocol () (JObj [(''name'', JArr [JStr ''x''])]))
     \<noteq> Inl (MCPErr (MCPError METHOD_NOT_FOUND
            (''Tool not found: '' @ format_value example_lib (JArr [JStr ''x''])))) \<and>
   fst (call_tool example_lib example_protocol () JNull)
     \<noteq> Inl (MCPErr (MCPError INVALID_PARAMS ''Missing tool name''))"
  by (simp add: call_tool_def tools_get_def unhashable_def no_attribute_get_def
      handle_request_def route_def make_error_response_def MCPError_def to_dict_def
      INTERNAL_ERROR_def dict_get_def dict_get_default_def Let_def)

section \<open>The read loop\<close>

lemma str_strip_empty: "str_strip U [] = []"
  by (simp add: str_strip_def)

lemma run_loop_parse_error_step:
  assumes "running p" "str_strip U line \<noteq> []" "loads L (str_strip U line) = JSONDecodeError msg"
  shows "run_loop U L p w (Line line # rest) =
     ((dumps L (make_error_response JNull (MCPError PARSE_ERROR msg)) @ [CHR 0x0A])
        # fst (run_loop U L p w rest),
      snd (run_loop U L p w rest))"
proof -
  have "line \<noteq> []" using assms(2) str_strip_empty by auto
  then show ?thesis using assms
    by (simp add: Let_def split: prod.splits)
qed

lemma run_loop_request_step:
  assumes "running p" "str_strip U line \<noteq> []"
    "loads L (str_strip U line) = Loaded (JObj request)"
  shows "run_loop U L p w (Line line # rest) =
     ((dumps L (fst (handle_request L p w request)) @ [CHR 0x0A])
        # fst (run_loop U L (fst (snd (handle_request L p w request)))
                 (snd (snd (handle_request L p w request))) rest),
      snd (run_loop U L (fst (snd (handle_request L p w request)))
                 (snd (snd (handle_request L p w request))) rest))"
proof -
  have "line \<noteq> []" using assms(2) str_strip_empty by auto
  then show ?thesis using assms
    by (simp add: Let_def split: prod.splits)
qed

lemma run_loop_raised_step:
  assumes "running p" "str_strip U line \<noteq> []" "loads L (str_strip U line) = LoadRaised e"
  shows "run_loop U L p w (Line line # rest) = ([], p, w)"
proof -
  have "line \<noteq> []" using assms(2) str_strip_empty by auto
  then show ?thesis using assms by (simp add: Let_def)
qed

text \<open>
  Claim C8, as amended. In the read loop, a line on which \<^verbatim>\<open>json.loads\<close> raises
  \<^verbatim>\<open>JSONDecodeError\<close> produces a ParseError response with a null correlation
  identifier and does not end the loop: the loop goes on with the lines that follow from
  the same state, and a well-formed request line that follows is answered. A line on
  which \<^verbatim>\<open>json.loads\<close> raises another exception, as it does on input nested too
  deeply, ends the loop without a response.
\<close>

theorem run_loop_parse_error:
  assumes "running p" "str_strip U line \<noteq> []"
  shows "(\<forall>msg. loads L (str_strip U line) = JSONDecodeError msg \<longrightarrow>
            run_loop U L p w (Line line # rest) =
              ((dumps L (JObj [(''jsonrpc'', JStr ''2.0''), (''id'', JNull),
                               (''error'', JObj [(''code'', JInt (- 32700)),
                                                 (''message'', JStr msg)])]) @ [CHR 0x0A])
                 # fst (run_loop U L p w rest),
               snd (run_loop U L p w rest))) \<and>
         (\<forall>msg good request more.
            loads L (str_strip U line) = JSONDecodeError msg \<and>
            rest = Line good # more \<and> str_strip U good \<noteq> [] \<and>
            loads L (str_strip U good) = Loaded (JObj request) \<longrightarrow>
            (\<exists>out. fst (run_loop U L p w (Line line # rest)) =
               (dumps L (JObj [(''jsonrpc'', JStr ''2.0''), (''id'', JNull),
                               (''error'', JObj [(''code'', JInt (- 32700)),
                                                 (''message'', JStr msg)])]) @ [CHR 0x0A])
               # (dumps L (fst (handle_request L p w request)) @ [CHR 0x0A]) # out)) \<and>
         (\<forall>e. loads L (str_strip U line) = LoadRaised e \<longrightarrow>
            run_loop U L p w (Line line # rest) = ([], p, w))"
proof (intro conjI allI impI)
  fix msg
  assume l: "loads L (str_strip U line) = JSONDecodeError msg"
  have r: "make_error_response JNull (MCPError PARSE_ERROR msg) =
      JObj [(''jsonrpc'', JStr ''2.0''), (''id'', JNull),
            (''error'', JObj [(''code'', JInt (- 32700)), (''message'', JStr msg)])]"
    by (simp add: make_error_response_def MCPError_def PARSE_ERROR_def to_dict_def)
  show "run_loop U L p w (Line line # rest) =
              ((dumps L (JObj [(''jsonrpc'', JStr ''2.0''), (''id'', JNull),
                               (''error'', JObj [(''code'', JInt (- 32700)),
                                                 (''message'', JStr msg)])]) @ [CHR 0x0A])
                 # fst (run_loop U L p w rest),
               snd (run_loop U L p w rest))"
    using run_loop_parse_error_step [OF assms l, of w rest] by (simp only: r)
next
  fix msg good request more
  assume g: "loads L (str_strip U line) = JSONDecodeError msg \<and>
            rest = Line good # more \<and> str_strip U good \<noteq> [] \<and>
            loads L (str_strip U good) = Loaded (JObj request)"
  then have l: "loads L (str_strip U line) = JSONDecodeError msg" by simp
  have r: "make_error_response JNull (MCPError PARSE_ERROR msg) =
      JObj [(''jsonrpc'', JStr ''2.0''), (''id'', JNull),
            (''error'', JObj [(''code'', JInt (- 32700)), (''message'', JStr msg)])]"
    by (simp add: make_error_response_def MCPError_def PARSE_ERROR_def to_dict_def)
  have s: "run_loop U L p w (Line line # rest) =
              ((dumps L (JObj [(''jsonrpc'', JStr ''2.0''), (''id'', JNull),
                               (''error'', JObj [(''code'', JInt (- 32700)),
                                                 (''message'', JStr msg)])]) @ [CHR 0x0A])
                 # fst (run_loop U L p w rest),
               snd (run_loop U L p w rest))"
    using run_loop_parse_error_step [OF assms l, of w rest] by (simp only: r)
  have "fst (run_loop U L p w rest) =
        (dumps L (fst (handle_request L p w request)) @ [CHR 0x0A])
        # fst (run_loop U L (fst (snd (handle_request L p w request)))
                 (snd (snd (handle_request L p w request))) more)"
    using g run_loop_request_step [OF assms(1), of U good L request w more] by simp
  then show "\<exists>out. fst (run_loop U L p w (Line line # rest)) =
               (dumps L (JObj [(''jsonrpc'', JStr ''2.0''), (''id'', JNull),
                               (''error'', JObj [(''code'', JInt (- 32700)),
                                                 (''message'', JStr msg)])]) @ [CHR 0x0A])
               # (dumps L (fst (handle_request L p w request)) @ [CHR 0x0A]) # out"
    using s by simp
next
  fix e
  assume "loads L (str_strip U line) = LoadRaised e"
  then show "run_loop U L p w (Line line # rest) = ([], p, w)"
    by (rule run_loop_raised_step [OF assms])
qed

lemma str_strip_bad_line: "str_strip latin1 bad_line = ''not json''"
  by (simp add: str_strip_def latin1_def latin1_isspace_def bad_line_def)

lemma str_strip_good_line: "str_strip latin1 good_line = request_line"
  by (simp add: str_strip_def latin1_def latin1_isspace_def request_line_def good_line_def)

lemma deep_line_not_request_line: "deep_line \<noteq> request_line"
proof
  assume "deep_line = request_line"
  then have "hd deep_line = hd request_line" by simp
  then show False by (simp add: deep_line_def request_line_def)
qed

lemma str_strip_deep_line: "str_strip latin1 deep_line = deep_line"
  by (simp add: str_strip_def deep_line_def latin1_def latin1_isspace_def)

lemma deep_line_nonempty: "deep_line \<noteq> []"
  by (simp add: deep_line_def)

lemma good_line_nonempty: "good_line \<noteq> []"
  by (simp add: good_line_def)

lemma request_line_nonempty: "request_line \<noteq> []"
  by (simp add: request_line_def)

lemma loads_request_line:
  "loads example_lib request_line = Loaded (JObj [(''method'', JStr ''initialize'')])"
  by (simp add: example_lib_def)

lemma loads_not_json:
  "loads example_lib ''not json'' = JSONDecodeError ''Expecting value: line 1 column 1 (char 0)''"
proof -
  have r: "''not json'' \<noteq> request_line" by (simp add: request_line_def)
  have d: "''not json'' \<noteq> deep_line"
  proof
    assume "''not json'' = deep_line"
    then have "hd ''not json'' = hd deep_line" by simp
    then show False by (simp add: deep_line_def)
  qed
  show ?thesis using r d by (simp add: example_lib_def)
qed

lemma loads_deep_line:
  "loads example_lib deep_line
     = LoadRaised (RecursionError
         ''maximum recursion depth exceeded while decoding a JSON array'')"
  using deep_line_not_request_line by (simp add: example_lib_def)

lemma handle_initialize_example:
  "handle_request example_lib (example_protocol\<lparr>running := True\<rparr>) ()
      [(''method'', JStr ''initialize'')]
   = (make_response JNull (fst (handle_initialize example_protocol JNull)),
      example_protocol\<lparr>running := True, initialized := True\<rparr>, ())"
  by (simp add: handle_request_def route_def handle_initialize_def dict_get_def
      dict_get_default_def Let_def)

lemma dumps_response: "dumps example_lib (make_response i r) = ''result''"
  by (simp add: example_lib_def make_response_def)

lemma run_loop_good_line:
  "run_loop latin1 example_lib (example_protocol\<lparr>running := True\<rparr>) () [Line good_line]
   = ([''result'' @ [CHR 0x0A]], example_protocol\<lparr>running := True, initialized := True\<rparr>, ())"
proof -
  have a: "running (example_protocol\<lparr>running := True\<rparr>)" by simp
  have b: "str_strip latin1 good_line \<noteq> []"
    by (simp add: str_strip_good_line request_line_nonempty)
  have c: "loads example_lib (str_strip latin1 good_line)
      = Loaded (JObj [(''method'', JStr ''initialize'')])"
    by (simp add: str_strip_good_line loads_request_line)
  show ?thesis
    using run_loop_request_step [OF a b c, of "()" "[]"]
    by (simp add: handle_initialize_example dumps_response)
qed

theorem run_loop_parse_error_witness:
  "running (example_protocol\<lparr>running := True\<rparr>) \<and>
   str_strip latin1 bad_line \<noteq> [] \<and>
   loads example_lib (str_strip latin1 bad_line)
     = JSONDecodeError ''Expecting value: line 1 column 1 (char 0)'' \<and>
   fst (run_loop latin1 example_lib (example_protocol\<lparr>running := True\<rparr>) ()
          [Line bad_line, Line good_line])
     = [''error'' @ [CHR 0x0A], ''result'' @ [CHR 0x0A]]"
proof -
  have a: "running (example_protocol\<lparr>running := True\<rparr>)" by simp
  have b: "str_strip latin1 bad_line \<noteq> []"
    by (simp add: str_strip_bad_line)
  have c: "loads example_lib (str_strip latin1 bad_line)
     = JSONDecodeError ''Expecting value: line 1 column 1 (char 0)''"
    by (simp add: str_strip_bad_line loads_not_json)
  have d: "dumps example_lib (JObj [(''jsonrpc'', JStr ''2.0''), (''id'', JNull),
                               (''error'', JObj [(''code'', JInt (- 32700)),
                                 (''message'',
                                  JStr ''Expecting value: line 1 column 1 (char 0)'')])])
      = ''error''"
    by (simp add: example_lib_def)
  note t = run_loop_parse_error [OF a b, of example_lib "()" "[Line good_line]",
      THEN conjunct1, THEN spec, THEN mp, OF c]
  have "fst (run_loop latin1 example_lib (example_protocol\<lparr>running := True\<rparr>) ()
          [Line bad_line, Line good_line])
     = [''error'' @ [CHR 0x0A], ''result'' @ [CHR 0x0A]]"
    unfolding t d run_loop_good_line by simp
  then show ?thesis using a b c by blast
qed

text \<open>
  The claim as first stated, for every line that fails structural parsing, fails on a
  line of a hundred thousand opening brackets: it is not JSON, the decoder raises
  \<^verbatim>\<open>RecursionError\<close> on it, no response is written and the loop ends, so that the
  request on the next line is not answered.
\<close>

theorem run_loop_deep_line_counterexample:
  "running (example_protocol\<lparr>running := True\<rparr>) \<and>
   str_strip latin1 deep_line = deep_line \<and> deep_line \<noteq> [] \<and>
   loads example_lib deep_line
     = LoadRaised (RecursionError
         ''maximum recursion depth exceeded while decoding a JSON array'') \<and>
   run_loop latin1 example_lib (example_protocol\<lparr>running := True\<rparr>) ()
       [Line deep_line, Line good_line]
     = ([], example_protocol\<lparr>running := True\<rparr>, ())"
proof -
  have a: "running (example_protocol\<lparr>running := True\<rparr>)" by simp
  have b: "str_strip latin1 deep_line \<noteq> []"
    by (simp add: str_strip_deep_line deep_line_nonempty)
  have c: "loads example_lib (str_strip latin1 deep_line)
     = LoadRaised (RecursionError
         ''maximum recursion depth exceeded while decoding a JSON array'')"
    by (simp add: str_strip_deep_line loads_deep_line)
  have "run_loop latin1 example_lib (example_protocol\<lparr>running := True\<rparr>) ()
       [Line deep_line, Line good_line]
     = ([], example_protocol\<lparr>running := True\<rparr>, ())"
    by (rule run_loop_raised_step [OF a b c])
  then show ?thesis using a loads_deep_line deep_line_nonempty str_strip_deep_line by blast
qed

end
